theory Spec2Isabelle
  imports Complex_Main
begin

section \<open>The contour animator of the plasma-equilibrium notebook\<close>

text \<open>
  The notebook's \<open>Contour\<close> class draws contour maps of a poloidal flux field with the
  plotting library, and sweeps a time sequence of (ground truth, prediction) pairs into
  the frames of a GIF. The class is a thin layer over three libraries: the array library
  (reshape, min, max, linspace), the plotting library (subplots, contour, legend, canvas)
  and the imaging library (the GIF encoder).

  \<^item> Array values are rationals (every double is one). The array library's \<open>linspace\<close>
    rounds; it is not code of the notebook either, and is a parameter \<open>lin\<close> of the
    operations that call it.
  \<^item> An exception is a value of type \<open>error\<close>; an operation returns its result or the
    exception \<^emph>\<open>together with\<close> the state, since what Python has mutated before a raise
    stays mutated.
  \<^item> The instance (\<open>self\<close>) and the plotting library's figures are separate parts of the
    state: the instance holds references (figure numbers), the library holds the
    drawing surfaces. Every call into the plotting library is also written to a journal.
  \<^item> What the plotting library's \<open>contour\<close> answers to a call (the levels of the contour
    set it returns, or the exception it raises) is not code of the notebook; it is a
    parameter \<open>lib\<close> of every operation that draws.
\<close>

subsection \<open>Exceptions\<close>

datatype error =
    AttributeError string
  | ValueError
  | IndexError
  | KeyError string
  | TypeError

subsection \<open>Arrays\<close>

record ndarray =
  nd_shape :: "nat list"
  nd_vals :: "rat list"

text \<open>\<open>a.reshape((nz, nr))\<close>: the element count must agree, the old shape is irrelevant.\<close>

definition reshape :: "ndarray \<Rightarrow> nat \<times> nat \<Rightarrow> error + ndarray" where
  "reshape a sh =
     (if length (nd_vals a) = fst sh * snd sh
      then Inr \<lparr>nd_shape = [fst sh, snd sh], nd_vals = nd_vals a\<rparr>
      else Inl ValueError)"

text \<open>
  A sequence of fields is an array whose first axis is time; it is modelled by the list of
  its rows. \<open>efit.min()\<close> and \<open>efit.max()\<close> reduce over every element and raise
  \<open>ValueError\<close> on an array without elements.
\<close>

definition array_min :: "ndarray list \<Rightarrow> error + rat" where
  "array_min xs =
     (case concat (map nd_vals xs) of [] \<Rightarrow> Inl ValueError | v # vs \<Rightarrow> Inr (fold min vs v))"

definition array_max :: "ndarray list \<Rightarrow> error + rat" where
  "array_max xs =
     (case concat (map nd_vals xs) of [] \<Rightarrow> Inl ValueError | v # vs \<Rightarrow> Inr (fold max vs v))"

text \<open>\<open>xs[-1]\<close>\<close>

definition getitem_last :: "'a list \<Rightarrow> error + 'a" where
  "getitem_last xs = (case xs of [] \<Rightarrow> Inl IndexError | _ # _ \<Rightarrow> Inr (last xs))"

text \<open>
  \<open>np.linspace(start, stop, num)\<close> itself is a parameter of the operations below. To run the
  class on concrete inputs there is a stand-in that computes in exact arithmetic; it gives
  what the library gives wherever the library's arithmetic is exact, as for the range from
  0 to 50 (step 1) and for \<open>start = stop\<close>.
\<close>

type_synonym linspace = "rat \<Rightarrow> rat \<Rightarrow> nat \<Rightarrow> rat list"

definition exact_linspace :: linspace where
  "exact_linspace start stop num =
     map (\<lambda>i. start + of_nat i * ((stop - start) / of_nat (num - 1))) [0..<num]"

text \<open>
  A labelled array, as far as the class touches it: \<open>.values\<close>, \<open>.sizes[name]\<close> and the
  coordinates \<open>.major_radius\<close> and \<open>.z\<close>. A coordinate that is \<open>None\<close> here is an
  attribute the object does not have.
\<close>

record dataarray =
  da_values :: ndarray
  da_sizes :: "(string \<times> nat) list"
  da_major_radius :: "rat list option"
  da_z :: "rat list option"

text \<open>The \<open>data\<close> argument of \<open>plot\<close>: a labelled array, a plain array, or the default \<open>None\<close>.\<close>

datatype data = DataArray dataarray | NdArray ndarray | NoData

subsection \<open>The plotting library's objects\<close>

text \<open>The \<open>levels\<close> argument of \<open>contour\<close>: a number of levels, or the levels themselves.\<close>

datatype level_spec = Count int | Values "rat list"

text \<open>The keyword arguments the class knows; a key that is \<open>None\<close> was not passed.\<close>

record kwargs =
  kw_colors :: "string option"
  kw_linestyles :: "string option"
  kw_levels :: "level_spec option"

record contour_call =
  arg_x :: "rat list"
  arg_y :: "rat list"
  arg_z :: ndarray
  arg_colors :: string
  arg_linestyles :: string
  arg_levels :: level_spec

type_synonym backend = "contour_call \<Rightarrow> error + rat list"

text \<open>
  A contour set is an object of the library: it has an identity, lives on one figure, and
  carries the \<open>levels\<close> the library chose. The model keeps the call it was drawn from.
\<close>

record contour_set =
  cs_id :: nat
  cs_fig :: nat
  cs_call :: contour_call
  cs_levels :: "rat list"

text \<open>\<open>Line2D([0], [0], label=label, color=color)\<close>\<close>

record handle =
  h_label :: string
  h_color :: string

text \<open>What a figure shows: the contour sets drawn on its axes, and its legend if any.\<close>

record surface =
  artists :: "contour_set list"
  shown_legend :: "handle list option"

datatype 'a event =
    Subplots nat
  | Contoured 'a
  | Removed 'a
  | Legend nat "handle list"
  | Drawn nat

record pyplot =
  figures :: "surface list"
  current :: "nat option"
  next_artist :: nat
  journal :: "contour_set event list"

definition blank :: surface where
  "blank = \<lparr>artists = [], shown_legend = None\<rparr>"

text \<open>A figure number the library does not hold shows nothing.\<close>

definition surface_of :: "pyplot \<Rightarrow> nat \<Rightarrow> surface" where
  "surface_of p f = (if f < length (figures p) then figures p ! f else blank)"

subsection \<open>The class\<close>

text \<open>
  The source (docstrings left out):
  \<^verbatim>\<open>
  @dataclass
  class Contour:
      magnetic_flux: xr.DataArray | None = None
      levels: int = 31
      _handles: list = field(init=False, repr=False, default_factory=list)

      @cached_property
      def axes(self):
          self.fig, axes = plt.subplots(figsize=(3, 4.5))
          axes.set_aspect("equal")
          axes.set_axis_off()
          return axes

      @cached_property
      def shape(self):
          return self.magnetic_flux.sizes["z"], self.magnetic_flux.sizes["major_radius"]

      def plot(self, data: xr.DataArray | np.ndarray = None, label=None, **kwargs):
          if isinstance(data, xr.DataArray):
              self.magnetic_flux = data
              data = data.values
          kwargs = {"colors": "gray", "linestyles": "-", "levels": self.levels} | kwargs
          try:
              contour = self.axes.contour(
                  self.magnetic_flux.major_radius,
                  self.magnetic_flux.z,
                  data.reshape(self.shape),
                  **kwargs,
              )
          except AttributeError:
              raise AttributeError(
                  "Grid coordinates major_radius and z not found on "
                  "magnetic_flux DataArray."
              )
          self.levels = contour.levels
          if label:
              color = kwargs.get("colors", "gray")
              self._handles.append(
                  plt.matplotlib.lines.Line2D([0], [0], label=label, color=color)
              )
          return contour

      def legend(self):
          plt.legend(
              handles=self._handles, loc="center", bbox_to_anchor=[0.5, 1.08], ncol=1
          )
          self._handles = []

      def __call__(self, efit: np.ndarray, prediction: np.ndarray):
          return [
              self.plot(efit, colors="gray", label="EFIT++"),
              self.plot(prediction, colors="C0", label="Prediction"),
          ]

      def _next_image(self, efit: np.ndarray, prediction: np.ndarray) -> PIL.Image.Image:
          del self.axes  # clear instance axes
          self._handles = []  # clear legend handles
          self.levels = np.linspace(efit.min(), efit.max(), 51)
          contours = self(efit[-1], prediction[-1])
          self.legend()
          for _efit, _prediction in zip(efit, prediction):
              for contour in contours:
                  contour.remove()
              contours = self(_efit, _prediction)
              self.fig.canvas.draw()
              yield PIL.Image.fromarray(np.array(self.fig.canvas.buffer_rgba()))

      def to_gif(self, efit: np.ndarray, prediction: np.ndarray):
          imgs = [image for image in self._next_image(efit, prediction)]
          imgs[0].save(
              data_path / "equilibrium_animation.gif",
              save_all=True,
              append_images=imgs,
              duration=100,
              loop=0,
              minimize_size=True,
          )
  \<close>
\<close>

text \<open>
  The dataclass fields \<open>magnetic_flux\<close>, \<open>levels\<close> and \<open>_handles\<close>, the attribute \<open>fig\<close>,
  and the two slots a \<open>cached_property\<close> fills in the instance dictionary.
\<close>

record Contour =
  magnetic_flux :: "dataarray option"
  levels :: level_spec
  handles :: "handle list"
  cached_axes :: "nat option"
  fig :: "nat option"
  cached_shape :: "(nat \<times> nat) option"

type_synonym state = "Contour \<times> pyplot"

text \<open>
  \<open>axes\<close> (a cached property): the first access opens a figure with \<open>plt.subplots\<close>, which
  becomes the library's current figure, and stores it in \<open>self.fig\<close>.
\<close>

definition axes :: "state \<Rightarrow> nat \<times> state" where
  "axes st =
     (case st of (c, p) \<Rightarrow>
       (case cached_axes c of
          Some a \<Rightarrow> (a, st)
        | None \<Rightarrow>
            (let f = length (figures p)
             in (f, c\<lparr>cached_axes := Some f, fig := Some f\<rparr>,
                    p\<lparr>figures := figures p @ [blank], current := Some f,
                      journal := journal p @ [Subplots f]\<rparr>))))"

text \<open>\<open>del self.axes\<close>: an attribute that is not in the instance dictionary cannot be deleted.\<close>

definition del_axes :: "Contour \<Rightarrow> error + Contour" where
  "del_axes c =
     (case cached_axes c of
        None \<Rightarrow> Inl (AttributeError ''axes'')
      | Some _ \<Rightarrow> Inr (c\<lparr>cached_axes := None\<rparr>))"

text \<open>\<open>shape\<close> (a cached property): computed from the field bound at the first access.\<close>

definition shape :: "Contour \<Rightarrow> (error + nat \<times> nat) \<times> Contour" where
  "shape c =
     (case cached_shape c of
        Some sh \<Rightarrow> (Inr sh, c)
      | None \<Rightarrow>
          (case magnetic_flux c of
             None \<Rightarrow> (Inl (AttributeError ''sizes''), c)
           | Some mf \<Rightarrow>
               (case map_of (da_sizes mf) ''z'' of
                  None \<Rightarrow> (Inl (KeyError ''z''), c)
                | Some nz \<Rightarrow>
                    (case map_of (da_sizes mf) ''major_radius'' of
                       None \<Rightarrow> (Inl (KeyError ''major_radius''), c)
                     | Some nr \<Rightarrow> (Inr (nz, nr), c\<lparr>cached_shape := Some (nz, nr)\<rparr>)))))"

text \<open>
  The arguments of the \<open>contour\<close> call, evaluated left to right inside the \<open>try\<close>:
  \<open>self.magnetic_flux.major_radius\<close>, \<open>self.magnetic_flux.z\<close>, \<open>data.reshape(self.shape)\<close>,
  and the keywords \<open>{"colors": "gray", "linestyles": "-", "levels": self.levels} | kwargs\<close>.
\<close>

definition contour_args :: "Contour \<Rightarrow> ndarray option \<Rightarrow> kwargs \<Rightarrow> (error + contour_call) \<times> Contour" where
  "contour_args c arr kw =
     (case magnetic_flux c of
        None \<Rightarrow> (Inl (AttributeError ''major_radius''), c)
      | Some mf \<Rightarrow>
     (case da_major_radius mf of
        None \<Rightarrow> (Inl (AttributeError ''major_radius''), c)
      | Some x \<Rightarrow>
     (case da_z mf of
        None \<Rightarrow> (Inl (AttributeError ''z''), c)
      | Some y \<Rightarrow>
     (case arr of
        None \<Rightarrow> (Inl (AttributeError ''reshape''), c)
      | Some a \<Rightarrow>
     (case shape c of
        (Inl e, c') \<Rightarrow> (Inl e, c')
      | (Inr sh, c') \<Rightarrow>
     (case reshape a sh of
        Inl e \<Rightarrow> (Inl e, c')
      | Inr zz \<Rightarrow>
          (Inr \<lparr>arg_x = x, arg_y = y, arg_z = zz,
                arg_colors = (case kw_colors kw of None \<Rightarrow> ''gray'' | Some col \<Rightarrow> col),
                arg_linestyles = (case kw_linestyles kw of None \<Rightarrow> ''-'' | Some ls \<Rightarrow> ls),
                arg_levels = (case kw_levels kw of None \<Rightarrow> levels c | Some lv \<Rightarrow> lv)\<rparr>,
           c')))))))"

definition grid_message :: string where
  "grid_message = ''Grid coordinates major_radius and z not found on magnetic_flux DataArray.''"

text \<open>\<open>except AttributeError: raise AttributeError(...)\<close>; any other exception passes.\<close>

fun reraise :: "error \<Rightarrow> error" where
  "reraise (AttributeError m) = AttributeError grid_message"
| "reraise e = e"

text \<open>\<open>if label:\<close> a label that is \<open>None\<close> or empty adds no legend handle.\<close>

definition add_handle :: "string option \<Rightarrow> string \<Rightarrow> Contour \<Rightarrow> Contour" where
  "add_handle label color c =
     (case label of
        None \<Rightarrow> c
      | Some l \<Rightarrow>
          (if l = [] then c
           else c\<lparr>handles := handles c @ [\<lparr>h_label = l, h_color = color\<rparr>]\<rparr>))"

definition plot :: "backend \<Rightarrow> data \<Rightarrow> string option \<Rightarrow> kwargs \<Rightarrow> state \<Rightarrow> (error + contour_set) \<times> state" where
  "plot lib d label kw st =
     (case st of (c0, p0) \<Rightarrow>
       (let c1 = (case d of DataArray da \<Rightarrow> c0\<lparr>magnetic_flux := Some da\<rparr> | _ \<Rightarrow> c0);
            arr = (case d of DataArray da \<Rightarrow> Some (da_values da) | NdArray a \<Rightarrow> Some a
                   | NoData \<Rightarrow> None)
        in (case axes (c1, p0) of (ax, c2, p1) \<Rightarrow>
           (case contour_args c2 arr kw of
              (Inl e, c3) \<Rightarrow> (Inl (reraise e), c3, p1)
            | (Inr call, c3) \<Rightarrow>
                (case lib call of
                   Inl e \<Rightarrow> (Inl (reraise e), c3, p1)
                 | Inr lv \<Rightarrow>
                     (let cs = \<lparr>cs_id = next_artist p1, cs_fig = ax, cs_call = call,
                                cs_levels = lv\<rparr>;
                          s = surface_of p1 ax;
                          p2 = p1\<lparr>figures := (figures p1)[ax := s\<lparr>artists := artists s @ [cs]\<rparr>],
                                 next_artist := Suc (next_artist p1),
                                 journal := journal p1 @ [Contoured cs]\<rparr>
                      in (Inr cs, add_handle label (arg_colors call) (c3\<lparr>levels := Values lv\<rparr>),
                          p2)))))))"

text \<open>
  \<open>plt.legend(handles=self._handles, ...)\<close> draws on the library's current axes (opening a
  figure if there is none); then \<open>self._handles = []\<close>.
\<close>

definition gca :: "pyplot \<Rightarrow> nat \<times> pyplot" where
  "gca p =
     (case current p of
        Some f \<Rightarrow> (f, p)
      | None \<Rightarrow>
          (let f = length (figures p)
           in (f, p\<lparr>figures := figures p @ [blank], current := Some f\<rparr>)))"

definition legend :: "state \<Rightarrow> state" where
  "legend st =
     (case st of (c, p) \<Rightarrow>
       (case gca p of (f, p1) \<Rightarrow>
          (c\<lparr>handles := []\<rparr>,
           p1\<lparr>figures := (figures p1)[f := (surface_of p1 f)\<lparr>shown_legend := Some (handles c)\<rparr>],
              journal := journal p1 @ [Legend f (handles c)]\<rparr>)))"

text \<open>\<open>__call__\<close>: the ground truth in gray, then the prediction in \<open>C0\<close>, both labelled.\<close>

definition call :: "backend \<Rightarrow> data \<Rightarrow> data \<Rightarrow> state \<Rightarrow> (error + contour_set list) \<times> state" where
  "call lib efit prediction st =
     (case plot lib efit (Some ''EFIT++'')
             \<lparr>kw_colors = Some ''gray'', kw_linestyles = None, kw_levels = None\<rparr> st of
        (Inl e, st1) \<Rightarrow> (Inl e, st1)
      | (Inr c1, st1) \<Rightarrow>
          (case plot lib prediction (Some ''Prediction'')
                  \<lparr>kw_colors = Some ''C0'', kw_linestyles = None, kw_levels = None\<rparr> st1 of
             (Inl e, st2) \<Rightarrow> (Inl e, st2)
           | (Inr c2, st2) \<Rightarrow> (Inr [c1, c2], st2)))"

text \<open>\<open>contour.remove()\<close> takes the contour set off its figure.\<close>

definition remove :: "contour_set \<Rightarrow> pyplot \<Rightarrow> pyplot" where
  "remove cs p =
     (let s = surface_of p (cs_fig cs)
      in p\<lparr>figures := (figures p)[cs_fig cs :=
                s\<lparr>artists := filter (\<lambda>a. cs_id a \<noteq> cs_id cs) (artists s)\<rparr>],
           journal := journal p @ [Removed cs]\<rparr>)"

text \<open>
  \<open>self.fig.canvas.draw()\<close> and the image made of \<open>buffer_rgba()\<close>: an image is what the
  figure shows at that moment.
\<close>

definition canvas_image :: "state \<Rightarrow> (error + surface) \<times> state" where
  "canvas_image st =
     (case st of (c, p) \<Rightarrow>
       (case fig c of
          None \<Rightarrow> (Inl (AttributeError ''fig''), st)
        | Some f \<Rightarrow> (Inr (surface_of p f), c, p\<lparr>journal := journal p @ [Drawn f]\<rparr>)))"

text \<open>
  The \<open>for\<close> loop of \<open>_next_image\<close> over \<open>zip(efit, prediction)\<close>, run until the generator is
  exhausted or raises: the images it has yielded, and the exception if it raised.
\<close>

fun sweep :: "backend \<Rightarrow> contour_set list \<Rightarrow> (ndarray \<times> ndarray) list \<Rightarrow> state \<Rightarrow>
    (surface list \<times> error option) \<times> state" where
  "sweep lib contours [] st = (([], None), st)"
| "sweep lib contours ((e, p) # rest) st =
     (case call lib (NdArray e) (NdArray p) (fst st, fold remove contours (snd st)) of
        (Inl err, st1) \<Rightarrow> (([], Some err), st1)
      | (Inr contours', st1) \<Rightarrow>
          (case canvas_image st1 of
             (Inl err, st2) \<Rightarrow> (([], Some err), st2)
           | (Inr img, st2) \<Rightarrow>
               (case sweep lib contours' rest st2 of
                  ((imgs, r), st3) \<Rightarrow> ((img # imgs, r), st3))))"

definition next_image :: "linspace \<Rightarrow> backend \<Rightarrow> ndarray list \<Rightarrow> ndarray list \<Rightarrow> state \<Rightarrow>
    (surface list \<times> error option) \<times> state" where
  "next_image lin lib efit prediction st =
     (case st of (c, p) \<Rightarrow>
     (case del_axes c of
        Inl e \<Rightarrow> (([], Some e), st)
      | Inr c1 \<Rightarrow>
     (let c2 = c1\<lparr>handles := []\<rparr> in
     (case array_min efit of
        Inl e \<Rightarrow> (([], Some e), c2, p)
      | Inr lo \<Rightarrow>
     (case array_max efit of
        Inl e \<Rightarrow> (([], Some e), c2, p)
      | Inr hi \<Rightarrow>
     (let c3 = c2\<lparr>levels := Values (lin lo hi 51)\<rparr> in
     (case getitem_last efit of
        Inl e \<Rightarrow> (([], Some e), c3, p)
      | Inr e_last \<Rightarrow>
     (case getitem_last prediction of
        Inl e \<Rightarrow> (([], Some e), c3, p)
      | Inr p_last \<Rightarrow>
     (case call lib (NdArray e_last) (NdArray p_last) (c3, p) of
        (Inl e, st1) \<Rightarrow> (([], Some e), st1)
      | (Inr contours, st1) \<Rightarrow> sweep lib contours (zip efit prediction) (legend st1))))))))))"

text \<open>
  \<open>to_gif\<close>: \<open>imgs[0].save(path, save_all=True, append_images=imgs, duration=100, loop=0,
  minimize_size=True)\<close>. The result is the request handed to the GIF encoder; what the
  encoder makes of it is not modelled.
\<close>

record gif_save =
  base_image :: surface
  save_all :: bool
  append_images :: "surface list"
  duration :: nat
  loop :: nat
  minimize_size :: bool

definition to_gif :: "linspace \<Rightarrow> backend \<Rightarrow> ndarray list \<Rightarrow> ndarray list \<Rightarrow> state \<Rightarrow>
    (error + gif_save) \<times> state" where
  "to_gif lin lib efit prediction st =
     (case next_image lin lib efit prediction st of
        ((imgs, Some e), st1) \<Rightarrow> (Inl e, st1)
      | ((imgs, None), st1) \<Rightarrow>
          (case imgs of
             [] \<Rightarrow> (Inl IndexError, st1)
           | first # _ \<Rightarrow>
               (Inr \<lparr>base_image = first, save_all = True, append_images = imgs,
                     duration = 100, loop = 0, minimize_size = True\<rparr>, st1)))"

subsection \<open>Vocabulary of the properties\<close>

text \<open>
  The instance has a grid: the bound field carries the coordinates \<open>x\<close> (major radius) and
  \<open>y\<close> (height), \<open>self.shape\<close> evaluates to \<open>sh\<close>, and the coordinates have the lengths of
  that shape.
\<close>

definition grid :: "Contour \<Rightarrow> rat list \<Rightarrow> rat list \<Rightarrow> nat \<times> nat \<Rightarrow> bool" where
  "grid c x y sh \<longleftrightarrow>
     (case magnetic_flux c of
        None \<Rightarrow> False
      | Some mf \<Rightarrow> da_major_radius mf = Some x \<and> da_z mf = Some y)
     \<and> fst (shape c) = Inr sh \<and> length y = fst sh \<and> length x = snd sh"

text \<open>A field fits a shape when it has that many elements (whatever its own shape).\<close>

definition fits :: "nat \<times> nat \<Rightarrow> ndarray \<Rightarrow> bool" where
  "fits sh a \<longleftrightarrow> length (nd_vals a) = fst sh * snd sh"

definition gridded :: "nat \<times> nat \<Rightarrow> ndarray \<Rightarrow> ndarray" where
  "gridded sh a = \<lparr>nd_shape = [fst sh, snd sh], nd_vals = nd_vals a\<rparr>"

text \<open>A call is consistent when the coordinates have the lengths of the field's two axes.\<close>

definition consistent :: "contour_call \<Rightarrow> bool" where
  "consistent cl \<longleftrightarrow> nd_shape (arg_z cl) = [length (arg_y cl), length (arg_x cl)]"

text \<open>
  What the plotting library's \<open>contour\<close> checks before it draws: the coordinates match the
  field, the field has at least 2 rows and 2 columns, and explicit levels are in strictly
  increasing order.
\<close>

definition drawable :: "contour_call \<Rightarrow> bool" where
  "drawable cl \<longleftrightarrow> consistent cl \<and> 2 \<le> length (arg_y cl) \<and> 2 \<le> length (arg_x cl)"

definition increasing :: "rat list \<Rightarrow> bool" where
  "increasing ls \<longleftrightarrow> ls \<noteq> [] \<and> sorted_wrt (<) ls"

text \<open>
  Three contracts of the plotting library, each on calls that name their levels.
  \<open>draws\<close>: a drawable call with increasing levels is drawn, and the contour set has these
  levels. \<open>refuses\<close>: a drawable call with several levels that are not strictly increasing
  raises \<open>ValueError\<close>. \<open>faithful\<close>: whenever a call is drawn, the contour set has the
  levels that were named.
\<close>

definition draws :: "backend \<Rightarrow> bool" where
  "draws lib \<longleftrightarrow>
     (\<forall>cl ls. drawable cl \<and> arg_levels cl = Values ls \<and> increasing ls \<longrightarrow> lib cl = Inr ls)"

definition refuses :: "backend \<Rightarrow> bool" where
  "refuses lib \<longleftrightarrow>
     (\<forall>cl ls. drawable cl \<and> arg_levels cl = Values ls \<and> 1 < length ls \<and> \<not> sorted_wrt (<) ls
        \<longrightarrow> lib cl = Inl ValueError)"

definition faithful :: "backend \<Rightarrow> bool" where
  "faithful lib \<longleftrightarrow> (\<forall>cl ls lv. arg_levels cl = Values ls \<and> lib cl = Inr lv \<longrightarrow> lv = ls)"

text \<open>
  A stand-in for the plotting library, to run the class on concrete inputs. It makes the
  three checks above (\<open>TypeError\<close> for the field and its coordinates, \<open>ValueError\<close> for the
  levels) and draws at the levels it is given. For a requested number of levels the
  library chooses levels of its own; the stand-in spreads that many over the field's
  range, and nothing below depends on that choice.
\<close>

definition checking_backend :: backend where
  "checking_backend cl =
     (if \<not> drawable cl then Inl TypeError
      else case arg_levels cl of
             Values ls \<Rightarrow>
               (if 1 < length ls \<and> \<not> sorted_wrt (<) ls then Inl ValueError else Inr ls)
           | Count n \<Rightarrow>
               (case nd_vals (arg_z cl) of
                  [] \<Rightarrow> Inl ValueError
                | v # vs \<Rightarrow> Inr (exact_linspace (fold min vs v) (fold max vs v) (nat n))))"

text \<open>The fields an image shows, in drawing order.\<close>

definition shown_fields :: "surface \<Rightarrow> ndarray list" where
  "shown_fields s = map (\<lambda>a. arg_z (cs_call a)) (artists s)"

text \<open>The call \<open>__call__\<close> makes for a field on the grid \<open>x\<close>, \<open>y\<close>, \<open>sh\<close>.\<close>

definition mk_call :: "rat list \<Rightarrow> rat list \<Rightarrow> nat \<times> nat \<Rightarrow> ndarray \<Rightarrow> string \<Rightarrow> level_spec \<Rightarrow>
    contour_call" where
  "mk_call x y sh a col lv =
     \<lparr>arg_x = x, arg_y = y, arg_z = gridded sh a, arg_colors = col, arg_linestyles = ''-'',
      arg_levels = lv\<rparr>"

definition efit_handle :: handle where
  "efit_handle = \<lparr>h_label = ''EFIT++'', h_color = ''gray''\<rparr>"

definition prediction_handle :: handle where
  "prediction_handle = \<lparr>h_label = ''Prediction'', h_color = ''C0''\<rparr>"

text \<open>
  The state between two steps of the sweep: the instance has its grid and the levels \<open>L\<close>,
  its axes and \<open>fig\<close> are figure \<open>f\<close>, and that figure shows exactly the contour sets \<open>cs\<close>.
\<close>

definition ready :: "rat list \<Rightarrow> rat list \<Rightarrow> nat \<times> nat \<Rightarrow> rat list \<Rightarrow> nat \<Rightarrow> contour_set list \<Rightarrow>
    state \<Rightarrow> bool" where
  "ready x y sh L f cs st \<longleftrightarrow>
     (case st of (c, p) \<Rightarrow>
        grid c x y sh \<and> cached_axes c = Some f \<and> fig c = Some f \<and> f < length (figures p) \<and>
        levels c = Values L \<and> artists (figures p ! f) = cs \<and> (\<forall>a\<in>set cs. cs_fig a = f))"

text \<open>
  The state while an animation with the levels \<open>L\<close> is drawn on figure \<open>f\<close>, whatever else
  holds: every contour set on the figure was drawn with \<open>L\<close>, asked for and returned.
\<close>

definition with_levels :: "rat list \<Rightarrow> contour_set \<Rightarrow> bool" where
  "with_levels L a \<longleftrightarrow> arg_levels (cs_call a) = Values L \<and> cs_levels a = L"

definition leveled :: "rat list \<Rightarrow> nat \<Rightarrow> state \<Rightarrow> bool" where
  "leveled L f st \<longleftrightarrow>
     (case st of (c, p) \<Rightarrow>
        cached_axes c = Some f \<and> fig c = Some f \<and> f < length (figures p) \<and>
        levels c = Values L \<and> list_all (with_levels L) (artists (figures p ! f)))"

text \<open>
  The library calls of one step of the sweep, given the contour sets it finds and the ones
  it draws: remove the old ones, draw the new ones, render the figure.
\<close>

definition block :: "nat \<Rightarrow> contour_set list \<times> contour_set list \<Rightarrow> contour_set event list" where
  "block f pc = map Removed (fst pc) @ map Contoured (snd pc) @ [Drawn f]"

text \<open>
  \<open>follows lib x y sh L ps ds\<close>: the pairs of contour sets \<open>ds\<close> are what drawing the pairs
  of fields \<open>ps\<close> one after the other gives, starting with the levels \<open>L\<close>: each call passes
  the levels the previous contour set came back with.
\<close>

fun follows :: "backend \<Rightarrow> rat list \<Rightarrow> rat list \<Rightarrow> nat \<times> nat \<Rightarrow> level_spec \<Rightarrow>
    (ndarray \<times> ndarray) list \<Rightarrow> contour_set list list \<Rightarrow> bool" where
  "follows lib x y sh L [] ds \<longleftrightarrow> ds = []"
| "follows lib x y sh L ((e, pr) # ps) ds \<longleftrightarrow>
     (\<exists>a b ds'. ds = [a, b] # ds' \<and>
        cs_call a = mk_call x y sh e ''gray'' L \<and> lib (cs_call a) = Inr (cs_levels a) \<and>
        cs_call b = mk_call x y sh pr ''C0'' (Values (cs_levels a)) \<and>
        lib (cs_call b) = Inr (cs_levels b) \<and>
        follows lib x y sh (Values (cs_levels b)) ps ds')"

text \<open>The levels \<open>_next_image\<close> fixes: 51 of them over the range of the whole ground truth.\<close>

definition fixed_levels :: "linspace \<Rightarrow> ndarray list \<Rightarrow> rat list" where
  "fixed_levels lin efit =
     lin (Min (set (concat (map nd_vals efit)))) (Max (set (concat (map nd_vals efit)))) 51"

text \<open>An image of the sweep: the contour sets \<open>d\<close> under the legend of the two labels.\<close>

definition frame_of :: "contour_set list \<Rightarrow> surface" where
  "frame_of d = \<lparr>artists = d, shown_legend = Some [efit_handle, prediction_handle]\<rparr>"

text \<open>
  No grid coordinates can be found for a call of \<open>plot\<close>: the labelled array passed, or
  else the one bound to the instance, is missing or lacks \<open>major_radius\<close> or \<open>z\<close>.
\<close>

definition lacks_grid :: "Contour \<Rightarrow> data \<Rightarrow> bool" where
  "lacks_grid c d \<longleftrightarrow>
     (case d of
        DataArray da \<Rightarrow> da_major_radius da = None \<or> da_z da = None
      | _ \<Rightarrow>
          (case magnetic_flux c of
             None \<Rightarrow> True
           | Some mf \<Rightarrow> da_major_radius mf = None \<or> da_z mf = None))"

text \<open>The public operations, to speak of everything an instance may go through.\<close>

datatype op =
    DoPlot data "string option" kwargs
  | DoLegend
  | DoCall data data
  | DoToGif "ndarray list" "ndarray list"

fun exec :: "linspace \<Rightarrow> backend \<Rightarrow> op \<Rightarrow> state \<Rightarrow> state" where
  "exec lin lib (DoPlot d l kw) st = snd (plot lib d l kw st)"
| "exec lin lib DoLegend st = legend st"
| "exec lin lib (DoCall e pr) st = snd (call lib e pr st)"
| "exec lin lib (DoToGif e pr) st = snd (to_gif lin lib e pr st)"

definition run :: "linspace \<Rightarrow> backend \<Rightarrow> op list \<Rightarrow> state \<Rightarrow> state" where
  "run lin lib ops st = fold (exec lin lib) ops st"

subsection \<open>Example inputs\<close>

text \<open>A flux map on a grid of 2 heights and 3 radii, and an instance that has opened its axes.\<close>

definition flux23 :: dataarray where
  "flux23 =
     \<lparr>da_values = \<lparr>nd_shape = [2, 3], nd_vals = [1, 2, 3, 4, 5, 6]\<rparr>,
      da_sizes = [(''z'', 2), (''major_radius'', 3)],
      da_major_radius = Some [1, 2, 3], da_z = Some [0, 1]\<rparr>"

definition opened :: "dataarray \<Rightarrow> Contour" where
  "opened mf =
     \<lparr>magnetic_flux = Some mf, levels = Count 31, handles = [], cached_axes = Some 0,
      fig = Some 0, cached_shape = None\<rparr>"

definition one_figure :: pyplot where
  "one_figure = \<lparr>figures = [blank], current = Some 0, next_artist = 0, journal = [Subplots 0]\<rparr>"

text \<open>A freshly constructed instance, \<open>Contour(mf)\<close>, and the library before any figure.\<close>

definition fresh :: "dataarray \<Rightarrow> Contour" where
  "fresh mf =
     \<lparr>magnetic_flux = Some mf, levels = Count 31, handles = [], cached_axes = None,
      fig = None, cached_shape = None\<rparr>"

definition no_figure :: pyplot where
  "no_figure = \<lparr>figures = [], current = None, next_artist = 0, journal = []\<rparr>"

definition flat :: "rat list \<Rightarrow> ndarray" where
  "flat vs = \<lparr>nd_shape = [length vs], nd_vals = vs\<rparr>"

definition kw_none :: kwargs where
  "kw_none = \<lparr>kw_colors = None, kw_linestyles = None, kw_levels = None\<rparr>"

text \<open>Flat fields of six values, as the rows of the notebook's target arrays are.\<close>

definition ramp :: ndarray where
  "ramp = flat [1, 2, 3, 4, 5, 6]"

definition dip :: ndarray where
  "dip = flat [6, 5, 4, 3, 2, 1]"

definition fives :: ndarray where
  "fives = flat [5, 5, 5, 5, 5, 5]"

text \<open>
  Two fields with different ranges, 0 to 5 and 5 to 50: together they range from 0 to 50,
  where the 51 levels are the integers from 0 to 50, in doubles as in exact arithmetic.
\<close>

definition low :: ndarray where
  "low = flat [0, 1, 2, 3, 4, 5]"

definition high :: ndarray where
  "high = flat [5, 10, 20, 30, 40, 50]"

text \<open>A field of 3 rows and 2 columns, and a labelled array around it.\<close>

definition tall :: ndarray where
  "tall = \<lparr>nd_shape = [3, 2], nd_vals = [1, 2, 3, 4, 5, 6]\<rparr>"

definition flux32 :: dataarray where
  "flux32 =
     \<lparr>da_values = tall, da_sizes = [(''z'', 3), (''major_radius'', 2)],
      da_major_radius = Some [1, 2], da_z = Some [0, 1, 2]\<rparr>"

text \<open>A grid of 8 heights and 6 radii, and a field of ones on it.\<close>

definition flux86 :: dataarray where
  "flux86 =
     \<lparr>da_values = \<lparr>nd_shape = [8, 6], nd_vals = replicate 48 1\<rparr>,
      da_sizes = [(''z'', 8), (''major_radius'', 6)],
      da_major_radius = Some [1, 2, 3, 4, 5, 6], da_z = Some [0, 1, 2, 3, 4, 5, 6, 7]\<rparr>"

definition ones :: ndarray where
  "ones = flat (replicate 48 1)"

text \<open>An instance after a first plot: the shape is cached and the levels are explicit.\<close>

definition settled :: Contour where
  "settled = (opened flux23)\<lparr>cached_shape := Some (2, 3), levels := Values [2, 4]\<rparr>"

text \<open>A stand-in library that draws whatever it is asked to.\<close>

definition lenient_backend :: backend where
  "lenient_backend cl = Inr (case arg_levels cl of Values ls \<Rightarrow> ls | Count n \<Rightarrow> [])"

definition is_legend :: "'a event \<Rightarrow> bool" where
  "is_legend ev = (case ev of Legend _ _ \<Rightarrow> True | _ \<Rightarrow> False)"

section \<open>Properties\<close>

subsection \<open>Drawing on an instance that has its grid\<close>

lemma shape_grid: "fst (shape c) = Inr sh \<Longrightarrow> shape c = (Inr sh, c\<lparr>cached_shape := Some sh\<rparr>)"
  by (auto simp: shape_def split: option.splits)

lemma grid_update:
  "grid c x y sh \<Longrightarrow> grid (c\<lparr>cached_shape := Some sh, levels := l, handles := h\<rparr>) x y sh"
  by (auto simp: grid_def shape_def split: option.splits)

lemma consistent_mk_call: "length y = fst sh \<Longrightarrow> length x = snd sh \<Longrightarrow> consistent (mk_call x y sh a col L)"
  by (simp add: consistent_def mk_call_def gridded_def)

lemma drawable_mk_call:
  "length y = fst sh \<Longrightarrow> length x = snd sh \<Longrightarrow> 2 \<le> fst sh \<Longrightarrow> 2 \<le> snd sh \<Longrightarrow>
   drawable (mk_call x y sh a col L)"
  by (simp add: drawable_def consistent_mk_call) (simp add: mk_call_def)

lemma contour_args_grid:
  assumes "grid c x y sh" "fits sh a"
  shows "contour_args c (Some a) \<lparr>kw_colors = Some col, kw_linestyles = None, kw_levels = None\<rparr>
     = (Inr (mk_call x y sh a col (levels c)), c\<lparr>cached_shape := Some sh\<rparr>)"
  using assms
  by (auto simp: grid_def fits_def contour_args_def shape_grid reshape_def mk_call_def gridded_def split: option.splits)

lemma plot_on_grid:
  assumes "grid c x y sh" "fits sh a" "cached_axes c = Some f" "f < length (figures p)"
    "lib (mk_call x y sh a col (levels c)) = Inr lv" "l \<noteq> []"
  shows "plot lib (NdArray a) (Some l) \<lparr>kw_colors = Some col, kw_linestyles = None, kw_levels = None\<rparr> (c, p)
     = (Inr \<lparr>cs_id = next_artist p, cs_fig = f, cs_call = mk_call x y sh a col (levels c), cs_levels = lv\<rparr>,
        c\<lparr>cached_shape := Some sh, levels := Values lv, handles := handles c @ [\<lparr>h_label = l, h_color = col\<rparr>]\<rparr>,
        p\<lparr>figures := (figures p)[f := (figures p ! f)\<lparr>artists := artists (figures p ! f) @
              [\<lparr>cs_id = next_artist p, cs_fig = f, cs_call = mk_call x y sh a col (levels c), cs_levels = lv\<rparr>]\<rparr>],
           next_artist := Suc (next_artist p),
           journal := journal p @ [Contoured \<lparr>cs_id = next_artist p, cs_fig = f, cs_call = mk_call x y sh a col (levels c), cs_levels = lv\<rparr>]\<rparr>)"
  using assms
  by (simp add: plot_def axes_def contour_args_grid surface_of_def add_handle_def Let_def mk_call_def)

lemma call_grid:
  assumes dr: "draws lib" and g: "grid c x y sh" and big: "2 \<le> fst sh" "2 \<le> snd sh"
    and ax: "cached_axes c = Some f"
    and fl: "f < length (figures p)" and lv: "levels c = Values L" and inc: "increasing L"
    and fe: "fits sh e" and fp: "fits sh pr"
  obtains a b where
    "call lib (NdArray e) (NdArray pr) (c, p) =
       (Inr [a, b],
        c\<lparr>cached_shape := Some sh, levels := Values (cs_levels b),
          handles := handles c @ [efit_handle, prediction_handle]\<rparr>,
        p\<lparr>figures := (figures p)[f := (figures p ! f)\<lparr>artists := artists (figures p ! f) @ [a, b]\<rparr>],
          next_artist := Suc (Suc (next_artist p)),
          journal := journal p @ [Contoured a, Contoured b]\<rparr>)"
    "cs_call a = mk_call x y sh e ''gray'' (Values L)" "lib (cs_call a) = Inr (cs_levels a)"
    "cs_call b = mk_call x y sh pr ''C0'' (Values (cs_levels a))" "lib (cs_call b) = Inr (cs_levels b)"
    "cs_fig a = f" "cs_fig b = f" "cs_id a = next_artist p" "cs_id b = Suc (next_artist p)"
    "cs_levels a = L" "cs_levels b = L"
proof -
  from g have len: "length y = fst sh" "length x = snd sh" by (simp_all add: grid_def)
  let ?k1 = "mk_call x y sh e ''gray'' (Values L)"
  have "drawable ?k1 \<and> arg_levels ?k1 = Values L"
    using len big by (simp add: drawable_mk_call) (simp add: mk_call_def)
  with dr inc have l1': "lib ?k1 = Inr L" unfolding draws_def by blast
  then obtain l1 where l1: "lib ?k1 = Inr l1" and l1L: "l1 = L" by blast
  let ?a = "\<lparr>cs_id = next_artist p, cs_fig = f, cs_call = ?k1, cs_levels = l1\<rparr>"
  let ?c1 = "c\<lparr>cached_shape := Some sh, levels := Values l1, handles := handles c @ [\<lparr>h_label = ''EFIT++'', h_color = ''gray''\<rparr>]\<rparr>"
  let ?p1 = "p\<lparr>figures := (figures p)[f := (figures p ! f)\<lparr>artists := artists (figures p ! f) @ [?a]\<rparr>],
           next_artist := Suc (next_artist p), journal := journal p @ [Contoured ?a]\<rparr>"
  have s1: "plot lib (NdArray e) (Some ''EFIT++'') \<lparr>kw_colors = Some ''gray'', kw_linestyles = None, kw_levels = None\<rparr> (c, p)
     = (Inr ?a, ?c1, ?p1)"
    using plot_on_grid [OF g fe ax fl, of lib "''gray''" l1 "''EFIT++''"] l1 lv by simp
  let ?k2 = "mk_call x y sh pr ''C0'' (Values l1)"
  have "drawable (mk_call x y sh pr ''C0'' (Values L)) \<and>
      arg_levels (mk_call x y sh pr ''C0'' (Values L)) = Values L"
    using len big by (simp add: drawable_mk_call) (simp add: mk_call_def)
  with dr inc have l2': "lib (mk_call x y sh pr ''C0'' (Values L)) = Inr L"
    unfolding draws_def by blast
  then obtain l2 where l2: "lib ?k2 = Inr l2" and l2L: "l2 = L" by (simp add: l1L)
  let ?b = "\<lparr>cs_id = Suc (next_artist p), cs_fig = f, cs_call = ?k2, cs_levels = l2\<rparr>"
  have g1: "grid ?c1 x y sh" by (rule grid_update [OF g])
  have ax1: "cached_axes ?c1 = Some f" using ax by simp
  have fl1: "f < length (figures ?p1)" using fl by simp
  have s2: "plot lib (NdArray pr) (Some ''Prediction'') \<lparr>kw_colors = Some ''C0'', kw_linestyles = None, kw_levels = None\<rparr> (?c1, ?p1)
     = (Inr ?b,
        c\<lparr>cached_shape := Some sh, levels := Values l2,
          handles := handles c @ [efit_handle, prediction_handle]\<rparr>,
        p\<lparr>figures := (figures p)[f := (figures p ! f)\<lparr>artists := artists (figures p ! f) @ [?a, ?b]\<rparr>],
          next_artist := Suc (Suc (next_artist p)),
          journal := journal p @ [Contoured ?a, Contoured ?b]\<rparr>)"
    using plot_on_grid [OF g1 fp ax1 fl1, of lib "''C0''" l2 "''Prediction''"] l2 fl
    by (simp add: efit_handle_def prediction_handle_def)
  have "call lib (NdArray e) (NdArray pr) (c, p) =
       (Inr [?a, ?b],
        c\<lparr>cached_shape := Some sh, levels := Values (cs_levels ?b),
          handles := handles c @ [efit_handle, prediction_handle]\<rparr>,
        p\<lparr>figures := (figures p)[f := (figures p ! f)\<lparr>artists := artists (figures p ! f) @ [?a, ?b]\<rparr>],
          next_artist := Suc (Suc (next_artist p)),
          journal := journal p @ [Contoured ?a, Contoured ?b]\<rparr>)"
    unfolding call_def s1 by (simp add: s2)
  then show thesis
    by (rule that) (simp_all add: l1' l2' l1L l2L)
qed

lemma fold_remove:
  assumes "f < length (figures p)" "\<forall>a\<in>set cs. cs_fig a = f"
  shows "fold remove cs p =
     p\<lparr>figures := (figures p)[f := (figures p ! f)\<lparr>artists :=
          filter (\<lambda>a. cs_id a \<notin> cs_id ` set cs) (artists (figures p ! f))\<rparr>],
       journal := journal p @ map Removed cs\<rparr>"
  using assms
proof (induction cs arbitrary: p)
  case Nil
  then show ?case by simp
next
  case (Cons a cs)
  have r: "remove a p = p\<lparr>figures := (figures p)[f := (figures p ! f)\<lparr>artists :=
          filter (\<lambda>b. cs_id b \<noteq> cs_id a) (artists (figures p ! f))\<rparr>],
       journal := journal p @ [Removed a]\<rparr>"
    using Cons.prems by (simp add: remove_def surface_of_def Let_def)
  have "fold remove (a # cs) p = fold remove cs (remove a p)" by simp
  also have "\<dots> = (remove a p)\<lparr>figures := (figures (remove a p))[f := (figures (remove a p) ! f)\<lparr>artists :=
          filter (\<lambda>b. cs_id b \<notin> cs_id ` set cs) (artists (figures (remove a p) ! f))\<rparr>],
       journal := journal (remove a p) @ map Removed cs\<rparr>"
    using Cons.prems by (intro Cons.IH) (simp_all add: r)
  also have "\<dots> = p\<lparr>figures := (figures p)[f := (figures p ! f)\<lparr>artists :=
          filter (\<lambda>b. cs_id b \<notin> cs_id ` set (a # cs)) (artists (figures p ! f))\<rparr>],
       journal := journal p @ map Removed (a # cs)\<rparr>"
    using Cons.prems by (simp add: r conj_commute)
  finally show ?case .
qed

lemma canvas_image_fig:
  "fig c = Some f \<Longrightarrow> f < length (figures p) \<Longrightarrow>
   canvas_image (c, p) = (Inr (figures p ! f), c, p\<lparr>journal := journal p @ [Drawn f]\<rparr>)"
  by (simp add: canvas_image_def surface_of_def)

lemma sweep_ready:
  assumes dr: "draws lib" and big: "2 \<le> fst sh" "2 \<le> snd sh" and inc: "increasing L"
    and rdy: "ready x y sh L f cs (c, p)"
    and fit: "\<forall>(e, pr)\<in>set pairs. fits sh e \<and> fits sh pr"
  shows "\<exists>ds c' p'.
     sweep lib cs pairs (c, p) = ((map (\<lambda>d. (figures p ! f)\<lparr>artists := d\<rparr>) ds, None), c', p') \<and>
     follows lib x y sh (levels c) pairs ds \<and>
     journal p' = journal p @ concat (map (block f) (zip (cs # ds) ds))"
  using rdy fit
proof (induction pairs arbitrary: cs c p)
  case Nil
  then show ?case by simp
next
  case (Cons pair rest)
  obtain e pr where pair: "pair = (e, pr)" by (cases pair)
  from Cons.prems(1) have g: "grid c x y sh" and ax: "cached_axes c = Some f"
    and fg: "fig c = Some f" and fl: "f < length (figures p)"
    and art: "artists (figures p ! f) = cs" and onf: "\<forall>a\<in>set cs. cs_fig a = f"
    by (simp_all add: ready_def)
  from Cons.prems(1) have lv: "levels c = Values L" by (simp add: ready_def)
  from Cons.prems(2) pair have fe: "fits sh e" and fp: "fits sh pr" by auto
  define q where "q = fold remove cs p"
  have q: "q = p\<lparr>figures := (figures p)[f := (figures p ! f)\<lparr>artists := []\<rparr>],
       journal := journal p @ map Removed cs\<rparr>"
    unfolding q_def fold_remove [OF fl onf] art by simp
  have flq: "f < length (figures q)" using fl by (simp add: q)
  from call_grid [OF dr g big ax flq lv inc fe fp] obtain a b where
    cl: "call lib (NdArray e) (NdArray pr) (c, q) =
       (Inr [a, b],
        c\<lparr>cached_shape := Some sh, levels := Values (cs_levels b),
          handles := handles c @ [efit_handle, prediction_handle]\<rparr>,
        q\<lparr>figures := (figures q)[f := (figures q ! f)\<lparr>artists := artists (figures q ! f) @ [a, b]\<rparr>],
          next_artist := Suc (Suc (next_artist q)),
          journal := journal q @ [Contoured a, Contoured b]\<rparr>)"
    and ka: "cs_call a = mk_call x y sh e ''gray'' (Values L)" and la: "lib (cs_call a) = Inr (cs_levels a)"
    and kb: "cs_call b = mk_call x y sh pr ''C0'' (Values (cs_levels a))" and lb: "lib (cs_call b) = Inr (cs_levels b)"
    and fa: "cs_fig a = f" and fb: "cs_fig b = f" and lbL: "cs_levels b = L"
    by blast
  define c1 where "c1 = c\<lparr>cached_shape := Some sh, levels := Values (cs_levels b),
          handles := handles c @ [efit_handle, prediction_handle]\<rparr>"
  define p1 where "p1 = q\<lparr>figures := (figures q)[f := (figures q ! f)\<lparr>artists := artists (figures q ! f) @ [a, b]\<rparr>],
          next_artist := Suc (Suc (next_artist q)),
          journal := journal q @ [Contoured a, Contoured b]\<rparr>"
  define p2 where "p2 = p1\<lparr>journal := journal p1 @ [Drawn f]\<rparr>"
  have fig1: "figures p1 ! f = (figures p ! f)\<lparr>artists := [a, b]\<rparr>"
    using fl by (simp add: p1_def q)
  have fl1: "f < length (figures p1)" using fl by (simp add: p1_def q)
  have j2: "journal p2 = journal p @ block f (cs, [a, b])"
    by (simp add: p2_def p1_def q block_def)
  have img: "canvas_image (c1, p1) = (Inr ((figures p ! f)\<lparr>artists := [a, b]\<rparr>), c1, p2)"
    using canvas_image_fig [of c1 f p1] fg fl1 fig1 by (simp add: c1_def p2_def)
  have rdy2: "ready x y sh L f [a, b] (c1, p2)"
    using grid_update [OF g] ax fg fl1 fig1 fa fb lbL
    by (simp add: ready_def c1_def p2_def)
  from Cons.prems(2) have fit2: "\<forall>(e, pr)\<in>set rest. fits sh e \<and> fits sh pr" by simp
  from Cons.IH [OF rdy2 fit2] obtain ds c' p' where
    sw: "sweep lib [a, b] rest (c1, p2) = ((map (\<lambda>d. (figures p2 ! f)\<lparr>artists := d\<rparr>) ds, None), c', p')"
    and fo: "follows lib x y sh (levels c1) rest ds"
    and jo: "journal p' = journal p2 @ concat (map (block f) (zip ([a, b] # ds) ds))"
    by blast
  have fig2: "figures p2 ! f = (figures p ! f)\<lparr>artists := [a, b]\<rparr>"
    using fig1 by (simp add: p2_def)
  have "sweep lib cs (pair # rest) (c, p) =
      ((map (\<lambda>d. (figures p ! f)\<lparr>artists := d\<rparr>) ([a, b] # ds), None), c', p')"
    using cl img sw by (simp add: pair q_def [symmetric] c1_def [symmetric] p1_def [symmetric] fig2)
  moreover have "follows lib x y sh (levels c) (pair # rest) ([a, b] # ds)"
    using ka la kb lb fo by (simp add: pair lv c1_def)
  moreover have "journal p' = journal p @ concat (map (block f) (zip (cs # [a, b] # ds) ([a, b] # ds)))"
    using jo j2 by simp
  ultimately show ?case by blast
qed

lemma plot_axes: "plot lib (NdArray a) l kw st = plot lib (NdArray a) l kw (snd (axes st))"
  by (cases st) (auto simp: plot_def axes_def Let_def split: option.splits)

lemma call_axes: "call lib (NdArray e) pr st = call lib (NdArray e) pr (snd (axes st))"
proof -
  have "plot lib (NdArray e) (Some ''EFIT++'') \<lparr>kw_colors = Some ''gray'', kw_linestyles = None, kw_levels = None\<rparr> st
      = plot lib (NdArray e) (Some ''EFIT++'') \<lparr>kw_colors = Some ''gray'', kw_linestyles = None, kw_levels = None\<rparr> (snd (axes st))"
    by (rule plot_axes)
  then show ?thesis by (simp add: call_def)
qed

lemma array_min_Min:
  assumes "concat (map nd_vals xs) \<noteq> []"
  shows "array_min xs = Inr (Min (set (concat (map nd_vals xs))))"
proof (cases "concat (map nd_vals xs)")
  case Nil
  with assms show ?thesis by blast
next
  case (Cons v vs)
  have "fold min vs v = Min (set (v # vs))" by (simp only: Min.set_eq_fold)
  then show ?thesis unfolding array_min_def Cons by simp
qed

lemma array_max_Max:
  assumes "concat (map nd_vals xs) \<noteq> []"
  shows "array_max xs = Inr (Max (set (concat (map nd_vals xs))))"
proof (cases "concat (map nd_vals xs)")
  case Nil
  with assms show ?thesis by blast
next
  case (Cons v vs)
  have "fold max vs v = Max (set (v # vs))" by (simp only: Max.set_eq_fold)
  then show ?thesis unfolding array_max_def Cons by simp
qed

lemma values_nonempty:
  assumes "efit \<noteq> []" "\<forall>a\<in>set efit. fits sh a" "0 < fst sh * snd sh"
  shows "concat (map nd_vals efit) \<noteq> []"
proof -
  from assms(1) obtain a rest where "efit = a # rest" by (cases efit) auto
  with assms(2,3) show ?thesis by (auto simp: fits_def)
qed

lemma next_image_ready:
  assumes dr: "draws lib" and g: "grid c x y sh" and big: "2 \<le> fst sh" "2 \<le> snd sh"
    and ax: "cached_axes c \<noteq> None"
    and ne: "efit \<noteq> []" and np: "prediction \<noteq> []"
    and fe: "\<forall>a\<in>set efit. fits sh a" and fp: "\<forall>a\<in>set prediction. fits sh a"
    and inc: "increasing (fixed_levels lin efit)"
  shows "\<exists>a0 b0 ds c' p'.
     next_image lin lib efit prediction (c, p) = ((map frame_of ds, None), c', p') \<and>
     follows lib x y sh (Values (fixed_levels lin efit))
       ((last efit, last prediction) # zip efit prediction) ([a0, b0] # ds) \<and>
     journal p' = journal p @
       [Subplots (length (figures p)), Contoured a0, Contoured b0,
        Legend (length (figures p)) [efit_handle, prediction_handle]] @
       concat (map (block (length (figures p))) (zip ([a0, b0] # ds) ds))"
proof -
  define f where "f = length (figures p)"
  define lo where "lo = Min (set (concat (map nd_vals efit)))"
  define hi where "hi = Max (set (concat (map nd_vals efit)))"
  define L where "L = lin lo hi 51"
  have L: "L = fixed_levels lin efit" by (simp only: L_def lo_def hi_def fixed_levels_def)
  from inc have incL: "increasing L" by (simp only: L)
  from big have pos: "0 < fst sh * snd sh" by simp
  from ax obtain f0 where f0: "cached_axes c = Some f0" by auto
  have del: "del_axes c = Inr (c\<lparr>cached_axes := None\<rparr>)" by (simp add: del_axes_def f0)
  have vals: "concat (map nd_vals efit) \<noteq> []" by (rule values_nonempty [OF ne fe pos])
  have mn: "array_min efit = Inr lo"
    unfolding lo_def by (rule array_min_Min [OF vals])
  have mx: "array_max efit = Inr hi"
    unfolding hi_def by (rule array_max_Max [OF vals])
  have le: "getitem_last efit = Inr (last efit)" using ne by (cases efit) (simp_all add: getitem_last_def)
  have lp: "getitem_last prediction = Inr (last prediction)"
    using np by (cases prediction) (simp_all add: getitem_last_def)
  define c3 where "c3 = c\<lparr>cached_axes := None, handles := [], levels := Values L\<rparr>"
  define ca where "ca = c3\<lparr>cached_axes := Some f, fig := Some f\<rparr>"
  define pa where "pa = p\<lparr>figures := figures p @ [blank], current := Some f,
                      journal := journal p @ [Subplots f]\<rparr>"
  have axs: "snd (axes (c3, p)) = (ca, pa)"
    by (simp add: axes_def c3_def ca_def pa_def f_def Let_def)
  have ga: "grid ca x y sh"
    using g by (auto simp: grid_def shape_def ca_def c3_def split: option.splits)
  have axa: "cached_axes ca = Some f" by (simp add: ca_def)
  have fla: "f < length (figures pa)" by (simp add: pa_def f_def)
  have lva: "levels ca = Values L" by (simp add: ca_def c3_def)
  have fle: "fits sh (last efit)" using ne fe by simp
  have flp: "fits sh (last prediction)" using np fp by simp
  from call_grid [OF dr ga big axa fla lva incL fle flp] obtain a0 b0 where
    cl: "call lib (NdArray (last efit)) (NdArray (last prediction)) (ca, pa) =
       (Inr [a0, b0],
        ca\<lparr>cached_shape := Some sh, levels := Values (cs_levels b0),
          handles := handles ca @ [efit_handle, prediction_handle]\<rparr>,
        pa\<lparr>figures := (figures pa)[f := (figures pa ! f)\<lparr>artists := artists (figures pa ! f) @ [a0, b0]\<rparr>],
          next_artist := Suc (Suc (next_artist pa)),
          journal := journal pa @ [Contoured a0, Contoured b0]\<rparr>)"
    and ka: "cs_call a0 = mk_call x y sh (last efit) ''gray'' (Values L)"
    and la: "lib (cs_call a0) = Inr (cs_levels a0)"
    and kb: "cs_call b0 = mk_call x y sh (last prediction) ''C0'' (Values (cs_levels a0))"
    and lb: "lib (cs_call b0) = Inr (cs_levels b0)"
    and fa: "cs_fig a0 = f" and fb: "cs_fig b0 = f" and lbL: "cs_levels b0 = L"
    by blast
  define c4 where "c4 = ca\<lparr>cached_shape := Some sh, levels := Values (cs_levels b0),
          handles := handles ca @ [efit_handle, prediction_handle]\<rparr>"
  define p4 where "p4 = pa\<lparr>figures := (figures pa)[f := (figures pa ! f)\<lparr>artists := artists (figures pa ! f) @ [a0, b0]\<rparr>],
          next_artist := Suc (Suc (next_artist pa)),
          journal := journal pa @ [Contoured a0, Contoured b0]\<rparr>"
  define c5 where "c5 = c4\<lparr>handles := []\<rparr>"
  define p5 where "p5 = p4\<lparr>figures := (figures p4)[f := (figures p4 ! f)\<lparr>shown_legend := Some [efit_handle, prediction_handle]\<rparr>],
              journal := journal p4 @ [Legend f [efit_handle, prediction_handle]]\<rparr>"
  have fl4: "f < length (figures p4)" by (simp add: p4_def pa_def f_def)
  have leg: "legend (c4, p4) = (c5, p5)"
    using fl4 by (simp add: legend_def gca_def surface_of_def c5_def p5_def)
      (simp add: p4_def pa_def c4_def ca_def c3_def)
  have fig5: "figures p5 ! f = frame_of [a0, b0]"
    by (simp add: p5_def p4_def pa_def f_def frame_of_def blank_def)
  have j5: "journal p5 = journal p @ [Subplots f, Contoured a0, Contoured b0,
        Legend f [efit_handle, prediction_handle]]"
    by (simp add: p5_def p4_def pa_def)
  have rdy: "ready x y sh L f [a0, b0] (c5, p5)"
    using grid_update [OF ga, where l = "Values (cs_levels b0)" and h = "[]"] fa fb fig5 lbL
    by (simp add: ready_def c5_def c4_def ca_def p5_def p4_def pa_def f_def frame_of_def)
  have fit: "\<forall>(e, pr)\<in>set (zip efit prediction). fits sh e \<and> fits sh pr"
    using fe fp by (auto dest: set_zip_leftD set_zip_rightD)
  from sweep_ready [OF dr big incL rdy fit] obtain ds c' p' where
    sw: "sweep lib [a0, b0] (zip efit prediction) (c5, p5) =
          ((map (\<lambda>d. (figures p5 ! f)\<lparr>artists := d\<rparr>) ds, None), c', p')"
    and fo: "follows lib x y sh (levels c5) (zip efit prediction) ds"
    and jo: "journal p' = journal p5 @ concat (map (block f) (zip ([a0, b0] # ds) ds))"
    by blast
  have frames: "map (\<lambda>d. (figures p5 ! f)\<lparr>artists := d\<rparr>) ds = map frame_of ds"
    by (simp add: fig5) (simp add: frame_of_def)
  have cl': "call lib (NdArray (last efit)) (NdArray (last prediction)) (c3, p) = (Inr [a0, b0], c4, p4)"
    using call_axes [of lib "last efit" "NdArray (last prediction)" "(c3, p)"] cl
    by (simp add: axs c4_def p4_def)
  have "next_image lin lib efit prediction (c, p) = ((map frame_of ds, None), c', p')"
    using sw by (simp add: next_image_def del mn mx le lp Let_def L_def [symmetric]
        c3_def [symmetric] cl' leg frames)
  moreover have "follows lib x y sh (Values L)
       ((last efit, last prediction) # zip efit prediction) ([a0, b0] # ds)"
    using ka la kb lb fo by (simp add: c5_def c4_def)
  moreover note jo [unfolded j5]
  ultimately show ?thesis unfolding f_def L by auto
qed

subsection \<open>Errors of \<open>plot\<close>\<close>

lemma plot_lacks_grid:
  "lacks_grid c d \<Longrightarrow> fst (plot lib d l kw (c, p)) = Inl (AttributeError grid_message)"
  by (cases d)
    (auto simp: plot_def axes_def contour_args_def lacks_grid_def Let_def split: option.splits)

lemma contour_args_grid_any:
  assumes "grid c x y sh" "fits sh a"
  shows "\<exists>cl. contour_args c (Some a) kw = (Inr cl, c\<lparr>cached_shape := Some sh\<rparr>) \<and>
    arg_z cl = gridded sh a \<and> consistent cl"
  using assms
  by (auto simp: grid_def fits_def contour_args_def shape_grid reshape_def gridded_def
      consistent_def split: option.splits)

lemma contour_args_misfit:
  assumes "grid c x y sh" "\<not> fits sh a"
  shows "fst (contour_args c (Some a) kw) = Inl ValueError"
  using assms
  by (auto simp: grid_def fits_def contour_args_def shape_grid reshape_def split: option.splits)

lemma grid_axes: "grid c x y sh \<Longrightarrow> grid (fst (snd (axes (c, p)))) x y sh"
  by (auto simp: grid_def axes_def shape_def Let_def split: option.splits)

lemma plot_unfold:
  "plot lib (NdArray a) l kw (c, p) =
    (case axes (c, p) of (ax, c2, p1) \<Rightarrow>
      (case contour_args c2 (Some a) kw of
         (Inl e, c3) \<Rightarrow> (Inl (reraise e), c3, p1)
       | (Inr cl, c3) \<Rightarrow>
           (case lib cl of
              Inl e \<Rightarrow> (Inl (reraise e), c3, p1)
            | Inr lv \<Rightarrow>
                (Inr \<lparr>cs_id = next_artist p1, cs_fig = ax, cs_call = cl, cs_levels = lv\<rparr>,
                 add_handle l (arg_colors cl) (c3\<lparr>levels := Values lv\<rparr>),
                 p1\<lparr>figures := (figures p1)[ax := (surface_of p1 ax)\<lparr>artists :=
                        artists (surface_of p1 ax) @
                        [\<lparr>cs_id = next_artist p1, cs_fig = ax, cs_call = cl, cs_levels = lv\<rparr>]\<rparr>],
                    next_artist := Suc (next_artist p1),
                    journal := journal p1 @
                      [Contoured \<lparr>cs_id = next_artist p1, cs_fig = ax, cs_call = cl, cs_levels = lv\<rparr>]\<rparr>))))"
  by (simp add: plot_def Let_def split: prod.splits sum.splits)

lemma plot_misfit:
  assumes "grid c x y sh" "\<not> fits sh a"
  shows "fst (plot lib (NdArray a) l kw (c, p)) = Inl ValueError"
proof -
  obtain ax c2 p1 where a: "axes (c, p) = (ax, c2, p1)" by (cases "axes (c, p)") auto
  with grid_axes [OF assms(1), of p] have "grid c2 x y sh" by simp
  from contour_args_misfit [OF this assms(2), of kw] obtain c3 where
    "contour_args c2 (Some a) kw = (Inl ValueError, c3)"
    by (cases "contour_args c2 (Some a) kw") auto
  then show ?thesis by (simp add: plot_unfold a)
qed

lemma plot_fit:
  assumes "grid c x y sh" "fits sh a"
  shows "(case plot lib (NdArray a) l kw (c, p) of
      (Inr cs, _) \<Rightarrow> arg_z (cs_call cs) = gridded sh a
    | (Inl e, _) \<Rightarrow> (\<exists>cl e'. arg_z cl = gridded sh a \<and> consistent cl \<and> lib cl = Inl e' \<and> e = reraise e'))"
proof -
  obtain ax c2 p1 where a: "axes (c, p) = (ax, c2, p1)" by (cases "axes (c, p)") auto
  with grid_axes [OF assms(1), of p] have "grid c2 x y sh" by simp
  from contour_args_grid_any [OF this assms(2), of kw] obtain cl where
    ca: "contour_args c2 (Some a) kw = (Inr cl, c2\<lparr>cached_shape := Some sh\<rparr>)"
    and z: "arg_z cl = gridded sh a" and co: "consistent cl"
    by blast
  show ?thesis
  proof (cases "lib cl")
    case (Inl e')
    then show ?thesis using z co by (auto simp: plot_unfold a ca)
  next
    case (Inr lv)
    then show ?thesis using z by (simp add: plot_unfold a ca)
  qed
qed

subsection \<open>What the sweep draws\<close>

lemma follows_length: "follows lib x y sh L ps ds \<Longrightarrow> length ds = length ps"
  by (induction lib x y sh L ps ds rule: follows.induct) auto

lemma follows_fields:
  "follows lib x y sh L ps ds \<Longrightarrow>
   map shown_fields (map frame_of ds) = map (\<lambda>(e, pr). [gridded sh e, gridded sh pr]) ps"
  by (induction lib x y sh L ps ds rule: follows.induct)
    (auto simp: shown_fields_def frame_of_def mk_call_def)

lemma exact_linspace_constant: "exact_linspace m m n = replicate n m"
  by (simp add: exact_linspace_def map_replicate_const)

lemma exact_linspace_increasing:
  assumes "lo < hi" "1 < n"
  shows "increasing (exact_linspace lo hi n)"
proof -
  define d where "d = (hi - lo) / of_nat (n - 1)"
  have d: "0 < d" using assms by (simp add: d_def)
  have "sorted_wrt (\<lambda>i j. lo + of_nat i * d < lo + of_nat j * d) [0..<n]"
  proof (rule sorted_wrt_mono_rel [of _ "(<)"])
    fix i j :: nat
    assume "i < j"
    then show "lo + of_nat i * d < lo + of_nat j * d" using d by simp
  qed simp
  then have "sorted_wrt (<) (exact_linspace lo hi n)"
    by (simp add: exact_linspace_def sorted_wrt_map d_def)
  moreover have "exact_linspace lo hi n \<noteq> []" using assms by (simp add: exact_linspace_def)
  ultimately show ?thesis by (simp add: increasing_def)
qed

lemma replicate_not_increasing: "1 < n \<Longrightarrow> \<not> sorted_wrt (<) (replicate n (m :: rat))"
  by (cases n; cases "n - 1") auto

lemma next_image_frames:
  assumes "draws lib" "grid c x y sh" "2 \<le> fst sh" "2 \<le> snd sh" "cached_axes c \<noteq> None"
    "efit \<noteq> []" "prediction \<noteq> []"
    "\<forall>a\<in>set efit. fits sh a" "\<forall>a\<in>set prediction. fits sh a"
    "increasing (fixed_levels lin efit)"
  shows "snd (fst (next_image lin lib efit prediction (c, p))) = None \<and>
    map shown_fields (fst (fst (next_image lin lib efit prediction (c, p)))) =
      map (\<lambda>(e, pr). [gridded sh e, gridded sh pr]) (zip efit prediction)"
proof -
  from next_image_ready [OF assms, of p] obtain a0 b0 ds c' p' where
    ni: "next_image lin lib efit prediction (c, p) = ((map frame_of ds, None), c', p')"
    and fo: "follows lib x y sh (Values (fixed_levels lin efit))
       ((last efit, last prediction) # zip efit prediction) ([a0, b0] # ds)"
    by blast
  from fo have "follows lib x y sh (Values (cs_levels b0)) (zip efit prediction) ds" by simp
  from follows_fields [OF this] ni show ?thesis by simp
qed

lemma no_legend_in_blocks: "filter is_legend (concat (map (block f) zs)) = []"
  by (induction zs) (simp_all add: block_def is_legend_def filter_map o_def)

subsection \<open>When the library refuses the levels\<close>

lemma array_range:
  assumes "array_min efit = Inr lo" "array_max efit = Inr hi"
  shows "lo = Min (set (concat (map nd_vals efit)))" "hi = Max (set (concat (map nd_vals efit)))"
proof -
  have ne: "concat (map nd_vals efit) \<noteq> []"
  proof
    assume "concat (map nd_vals efit) = []"
    then have "array_min efit = Inl ValueError" by (simp only: array_min_def list.case)
    with assms(1) show False by simp
  qed
  from array_min_Min [OF ne] assms(1) show "lo = Min (set (concat (map nd_vals efit)))" by simp
  from array_max_Max [OF ne] assms(2) show "hi = Max (set (concat (map nd_vals efit)))" by simp
qed

lemma next_image_refused:
  assumes rf: "refuses lib" and g: "grid c x y sh" and big: "2 \<le> fst sh" "2 \<le> snd sh"
    and ax: "cached_axes c \<noteq> None" and ne: "efit \<noteq> []" and np: "prediction \<noteq> []"
    and fl: "fits sh (last efit)"
    and mn: "array_min efit = Inr lo" and mx: "array_max efit = Inr hi"
    and bad: "1 < length (lin lo hi 51)" "\<not> sorted_wrt (<) (lin lo hi 51)"
  shows "next_image lin lib efit prediction (c, p) =
    (([], Some ValueError),
     c\<lparr>cached_axes := Some (length (figures p)), fig := Some (length (figures p)), handles := [],
       levels := Values (lin lo hi 51), cached_shape := Some sh\<rparr>,
     p\<lparr>figures := figures p @ [blank], current := Some (length (figures p)),
       journal := journal p @ [Subplots (length (figures p))]\<rparr>)"
proof -
  define f where "f = length (figures p)"
  define L where "L = lin lo hi 51"
  from ax obtain f0 where f0: "cached_axes c = Some f0" by auto
  have del: "del_axes c = Inr (c\<lparr>cached_axes := None\<rparr>)" by (simp add: del_axes_def f0)
  have le: "getitem_last efit = Inr (last efit)" using ne by (cases efit) (simp_all add: getitem_last_def)
  have lp: "getitem_last prediction = Inr (last prediction)"
    using np by (cases prediction) (simp_all add: getitem_last_def)
  define c3 where "c3 = c\<lparr>cached_axes := None, handles := [], levels := Values L\<rparr>"
  define ca where "ca = c3\<lparr>cached_axes := Some f, fig := Some f\<rparr>"
  define pa where "pa = p\<lparr>figures := figures p @ [blank], current := Some f,
                      journal := journal p @ [Subplots f]\<rparr>"
  have axs: "axes (c3, p) = (f, ca, pa)"
    by (simp add: axes_def c3_def ca_def pa_def f_def Let_def)
  have ga: "grid ca x y sh"
    using g by (auto simp: grid_def shape_def ca_def c3_def split: option.splits)
  from g have len: "length y = fst sh" "length x = snd sh" by (simp_all add: grid_def)
  let ?k = "mk_call x y sh (last efit) ''gray'' (Values L)"
  have args: "contour_args ca (Some (last efit))
      \<lparr>kw_colors = Some ''gray'', kw_linestyles = None, kw_levels = None\<rparr> =
      (Inr ?k, ca\<lparr>cached_shape := Some sh\<rparr>)"
    using contour_args_grid [OF ga fl, of "''gray''"] by (simp add: ca_def c3_def)
  have "drawable ?k \<and> arg_levels ?k = Values L"
    using len big by (simp add: drawable_mk_call) (simp add: mk_call_def)
  with rf bad have no: "lib ?k = Inl ValueError" unfolding refuses_def L_def by blast
  have pl: "plot lib (NdArray (last efit)) (Some ''EFIT++'')
      \<lparr>kw_colors = Some ''gray'', kw_linestyles = None, kw_levels = None\<rparr> (c3, p) =
      (Inl ValueError, ca\<lparr>cached_shape := Some sh\<rparr>, pa)"
    by (simp add: plot_unfold axs args no)
  have cl: "call lib (NdArray (last efit)) (NdArray (last prediction)) (c3, p) =
      (Inl ValueError, ca\<lparr>cached_shape := Some sh\<rparr>, pa)"
    by (simp add: call_def pl)
  have "next_image lin lib efit prediction (c, p) =
      (([], Some ValueError), ca\<lparr>cached_shape := Some sh\<rparr>, pa)"
    by (simp add: next_image_def del mn mx le lp Let_def L_def [symmetric] c3_def [symmetric] cl)
  then show ?thesis by (simp add: ca_def c3_def pa_def f_def L_def)
qed

lemma to_gif_refused:
  assumes "refuses lib" "grid c x y sh" "2 \<le> fst sh" "2 \<le> snd sh"
    "cached_axes c \<noteq> None" "efit \<noteq> []" "prediction \<noteq> []" "fits sh (last efit)"
    "array_min efit = Inr lo" "array_max efit = Inr hi"
    "1 < length (lin lo hi 51)" "\<not> sorted_wrt (<) (lin lo hi 51)"
  shows "fst (to_gif lin lib efit prediction (c, p)) = Inl ValueError"
  by (simp add: to_gif_def next_image_refused [where lin = lin and lo = lo and hi = hi, OF assms])

subsection \<open>The levels stay what they are\<close>

lemma contour_args_fields:
  "cached_axes (snd (contour_args c arr kw)) = cached_axes c \<and>
   fig (snd (contour_args c arr kw)) = fig c \<and>
   levels (snd (contour_args c arr kw)) = levels c"
  by (auto simp: contour_args_def shape_def split: option.splits sum.splits)

lemma contour_args_levels:
  "kw_levels kw = None \<Longrightarrow> contour_args c arr kw = (Inr cl, c') \<Longrightarrow> arg_levels cl = levels c"
  by (auto simp: contour_args_def split: option.splits sum.splits prod.splits)

lemma add_handle_fields:
  "cached_axes (add_handle l col c) = cached_axes c \<and> fig (add_handle l col c) = fig c \<and>
   levels (add_handle l col c) = levels c"
  by (simp add: add_handle_def split: option.splits)

lemma plot_leveled:
  assumes fa: "faithful lib" and inv: "leveled L f (c, p)" and kw: "kw_levels kw = None"
  shows "leveled L f (snd (plot lib d l kw (c, p)))"
proof -
  define c1 where "c1 = (case d of DataArray da \<Rightarrow> c\<lparr>magnetic_flux := Some da\<rparr> | _ \<Rightarrow> c)"
  define arr where "arr = (case d of DataArray da \<Rightarrow> Some (da_values da) | NdArray a \<Rightarrow> Some a
                   | NoData \<Rightarrow> None)"
  from inv have ax: "cached_axes c = Some f" and fg: "fig c = Some f"
    and fl: "f < length (figures p)" and lv: "levels c = Values L"
    and ok: "list_all (with_levels L) (artists (figures p ! f))"
    by (simp_all add: leveled_def)
  have c1: "cached_axes c1 = Some f" "fig c1 = Some f" "levels c1 = Values L"
    using ax fg lv by (simp_all add: c1_def split: data.splits)
  have a: "axes (c1, p) = (f, c1, p)" by (simp add: axes_def c1)
  obtain r c3 where ca: "contour_args c1 arr kw = (r, c3)"
    by (cases "contour_args c1 arr kw") auto
  from contour_args_fields [of c1 arr kw] ca c1
  have c3: "cached_axes c3 = Some f" "fig c3 = Some f" "levels c3 = Values L" by simp_all
  have pl: "plot lib d l kw (c, p) =
     (case r of
        Inl e \<Rightarrow> (Inl (reraise e), c3, p)
      | Inr cl \<Rightarrow>
          (case lib cl of
             Inl e \<Rightarrow> (Inl (reraise e), c3, p)
           | Inr lv \<Rightarrow>
               (Inr \<lparr>cs_id = next_artist p, cs_fig = f, cs_call = cl, cs_levels = lv\<rparr>,
                add_handle l (arg_colors cl) (c3\<lparr>levels := Values lv\<rparr>),
                p\<lparr>figures := (figures p)[f := (surface_of p f)\<lparr>artists :=
                       artists (surface_of p f) @
                       [\<lparr>cs_id = next_artist p, cs_fig = f, cs_call = cl, cs_levels = lv\<rparr>]\<rparr>],
                   next_artist := Suc (next_artist p),
                   journal := journal p @
                     [Contoured \<lparr>cs_id = next_artist p, cs_fig = f, cs_call = cl, cs_levels = lv\<rparr>]\<rparr>)))"
    by (simp add: plot_def Let_def c1_def [symmetric] arr_def [symmetric] a ca split: sum.splits)
  have same: "leveled L f (c3, p)" using c3 fl ok by (simp add: leveled_def)
  show ?thesis
  proof (cases r)
    case (Inl e)
    then show ?thesis using same by (simp add: pl)
  next
    case (Inr cl)
    from contour_args_levels [OF kw ca [unfolded Inr]] c1 have al: "arg_levels cl = Values L"
      by simp
    show ?thesis
    proof (cases "lib cl")
      case (Inl e)
      then show ?thesis using Inr same by (simp add: pl)
    next
      case lv: (Inr lv)
      from fa al lv have "lv = L" unfolding faithful_def by blast
      then show ?thesis using Inr lv c3 fl ok al
        by (simp add: pl leveled_def add_handle_fields surface_of_def with_levels_def)
    qed
  qed
qed

lemma call_leveled:
  assumes fa: "faithful lib" and inv: "leveled L f st"
  shows "leveled L f (snd (call lib e pr st))"
proof -
  obtain c p where st: "st = (c, p)" by (cases st)
  let ?k = "\<lparr>kw_colors = Some ''gray'', kw_linestyles = None, kw_levels = None\<rparr>"
  let ?k2 = "\<lparr>kw_colors = Some ''C0'', kw_linestyles = None, kw_levels = None\<rparr>"
  obtain r1 c1 p1 where p1: "plot lib e (Some ''EFIT++'') ?k (c, p) = (r1, c1, p1)"
    by (cases "plot lib e (Some ''EFIT++'') ?k (c, p)") auto
  from plot_leveled [OF fa inv [unfolded st], of ?k e "Some ''EFIT++''"] p1
  have i1: "leveled L f (c1, p1)" by simp
  show ?thesis
  proof (cases r1)
    case (Inl err)
    then show ?thesis using i1 by (simp add: call_def st p1)
  next
    case (Inr a)
    obtain r2 st2 where p2: "plot lib pr (Some ''Prediction'') ?k2 (c1, p1) = (r2, st2)"
      by (cases "plot lib pr (Some ''Prediction'') ?k2 (c1, p1)") auto
    from plot_leveled [OF fa i1, of ?k2 pr "Some ''Prediction''"] p2
    have "leveled L f st2" by simp
    then show ?thesis using Inr by (cases r2) (simp_all add: call_def st p1 p2)
  qed
qed

lemma remove_leveled: "leveled L f (c, p) \<Longrightarrow> leveled L f (c, remove cs p)"
  by (auto simp: leveled_def remove_def Let_def surface_of_def nth_list_update list_all_iff)

lemma fold_remove_leveled: "leveled L f (c, p) \<Longrightarrow> leveled L f (c, fold remove cs p)"
  by (induction cs arbitrary: p) (simp_all add: remove_leveled)

lemma legend_leveled: "leveled L f st \<Longrightarrow> leveled L f (legend st)"
  by (cases st)
    (auto simp: leveled_def legend_def gca_def Let_def surface_of_def nth_list_update nth_append
      split: option.splits)

lemma canvas_image_leveled:
  assumes "leveled L f st"
  shows "leveled L f (snd (canvas_image st)) \<and>
    (case fst (canvas_image st) of
       Inr img \<Rightarrow> list_all (with_levels L) (artists img)
     | Inl e \<Rightarrow> True)"
  using assms by (cases st) (simp add: leveled_def canvas_image_def surface_of_def)

lemma sweep_leveled:
  assumes fa: "faithful lib"
  shows "leveled L f st \<Longrightarrow>
    list_all (\<lambda>img. list_all (with_levels L) (artists img)) (fst (fst (sweep lib cs pairs st))) \<and>
    leveled L f (snd (sweep lib cs pairs st))"
proof (induction pairs arbitrary: cs st)
  case Nil
  then show ?case by simp
next
  case (Cons pair rest)
  obtain e pr where pair: "pair = (e, pr)" by (cases pair)
  let ?st0 = "(fst st, fold remove cs (snd st))"
  from Cons.prems have i0: "leveled L f ?st0"
    using fold_remove_leveled [of L f "fst st" "snd st" cs] by simp
  obtain r1 st1 where c1: "call lib (NdArray e) (NdArray pr) ?st0 = (r1, st1)"
    by (cases "call lib (NdArray e) (NdArray pr) ?st0") auto
  from call_leveled [OF fa i0, of "NdArray e" "NdArray pr"] c1
  have i1: "leveled L f st1" by simp
  show ?case
  proof (cases r1)
    case (Inl err)
    then show ?thesis using i1 by (simp add: pair c1)
  next
    case (Inr cs')
    obtain r2 st2 where im: "canvas_image st1 = (r2, st2)" by (cases "canvas_image st1") auto
    from canvas_image_leveled [OF i1] im have i2: "leveled L f st2"
      and ok: "(case r2 of Inr img \<Rightarrow> list_all (with_levels L) (artists img) | Inl e \<Rightarrow> True)"
      by simp_all
    show ?thesis
    proof (cases r2)
      case (Inl err)
      then show ?thesis using Inr i2 by (simp add: pair c1 im)
    next
      case img: (Inr img)
      from Cons.IH [OF i2, of cs'] ok show ?thesis
        using Inr img by (auto simp: pair c1 im split: prod.splits)
    qed
  qed
qed

lemma next_image_leveled:
  assumes fa: "faithful lib"
  shows "list_all (\<lambda>img. list_all (with_levels (fixed_levels lin efit)) (artists img))
      (fst (fst (next_image lin lib efit prediction (c, p)))) \<and>
    (snd (fst (next_image lin lib efit prediction (c, p))) = None \<longrightarrow>
       levels (fst (snd (next_image lin lib efit prediction (c, p)))) =
         Values (fixed_levels lin efit))"
proof (cases "cached_axes c")
  case None
  then show ?thesis by (simp add: next_image_def del_axes_def)
next
  case (Some f0)
  note ni = next_image_def del_axes_def Some Let_def
  show ?thesis
  proof (cases "array_min efit")
    case (Inl e)
    then show ?thesis by (simp add: ni)
  next
    case lo: (Inr lo)
    show ?thesis
    proof (cases "array_max efit")
      case (Inl e)
      then show ?thesis using lo by (simp add: ni)
    next
      case hi: (Inr hi)
      define L where "L = lin lo hi 51"
      have L: "fixed_levels lin efit = L"
        using array_range [OF lo hi] by (simp add: fixed_levels_def L_def)
      define c3 where "c3 = c\<lparr>cached_axes := None, handles := [], levels := Values L\<rparr>"
      show ?thesis
      proof (cases "getitem_last efit")
        case (Inl e)
        then show ?thesis using lo hi by (simp add: ni)
      next
        case el: (Inr e_last)
        show ?thesis
        proof (cases "getitem_last prediction")
          case (Inl e)
          then show ?thesis using lo hi el by (simp add: ni)
        next
          case pl: (Inr p_last)
          define f where "f = length (figures p)"
          have i0: "leveled L f (snd (axes (c3, p)))"
            by (simp add: axes_def c3_def Let_def leveled_def f_def blank_def)
          obtain r1 st1 where c1: "call lib (NdArray e_last) (NdArray p_last) (c3, p) = (r1, st1)"
            by (cases "call lib (NdArray e_last) (NdArray p_last) (c3, p)") auto
          have "call lib (NdArray e_last) (NdArray p_last) (snd (axes (c3, p))) = (r1, st1)"
            using call_axes [of lib e_last "NdArray p_last" "(c3, p)"] c1 by simp
          with call_leveled [OF fa i0, of "NdArray e_last" "NdArray p_last"]
          have i1: "leveled L f st1" by simp
          show ?thesis
          proof (cases r1)
            case (Inl e)
            then show ?thesis using lo hi el pl c1
              by (simp add: ni L_def [symmetric] c3_def [symmetric])
          next
            case (Inr contours)
            from sweep_leveled [OF fa legend_leveled [OF i1], of contours "zip efit prediction"]
            show ?thesis using Inr lo hi el pl c1
              by (cases "legend st1")
                (auto simp: ni L L_def [symmetric] c3_def [symmetric] leveled_def
                  split: prod.splits)
          qed
        qed
      qed
    qed
  qed
qed

subsection \<open>The example inputs\<close>

lemma draws_checking: "draws checking_backend"
  by (simp add: draws_def checking_backend_def increasing_def)

lemma refuses_checking: "refuses checking_backend"
  by (simp add: refuses_def checking_backend_def)

lemma faithful_checking: "faithful checking_backend"
  by (auto simp: faithful_def checking_backend_def split: if_splits)

lemma grid_opened23: "grid (opened flux23) [1, 2, 3] [0, 1] (2, 3)"
  by (simp add: grid_def opened_def flux23_def shape_def)

lemma grid_opened86: "grid (opened flux86) [1, 2, 3, 4, 5, 6] [0, 1, 2, 3, 4, 5, 6, 7] (8, 6)"
  by (simp add: grid_def opened_def flux86_def shape_def)

lemma fits_examples:
  "fits (2, 3) ramp" "fits (2, 3) dip" "fits (2, 3) low" "fits (2, 3) high" "fits (2, 3) fives"
  by (simp_all add: fits_def ramp_def dip_def low_def high_def fives_def flat_def)

lemma range_examples:
  "array_min [low, high] = Inr 0" "array_max [low, high] = Inr 50"
  "array_min [low, high, low] = Inr 0" "array_max [low, high, low] = Inr 50"
  "array_min [ramp] = Inr 1" "array_max [ramp] = Inr 6"
  "array_min [fives, fives] = Inr 5" "array_max [fives, fives] = Inr 5"
  "array_min [fives] = Inr 5" "array_max [fives] = Inr 5"
  by (simp_all add: array_min_def array_max_def low_def high_def ramp_def fives_def flat_def)

lemma exact_linspace_0_50: "exact_linspace 0 50 51 = map of_nat [0..<51]"
  by (simp add: exact_linspace_def)

lemma levels_examples:
  "fixed_levels exact_linspace [low, high] = map of_nat [0..<51]"
  "fixed_levels exact_linspace [low, high, low] = map of_nat [0..<51]"
  "fixed_levels exact_linspace [ramp] = exact_linspace 1 6 51"
proof -
  note r1 = array_range [OF range_examples(1,2), symmetric]
  note r2 = array_range [OF range_examples(3,4), symmetric]
  note r3 = array_range [OF range_examples(5,6), symmetric]
  show "fixed_levels exact_linspace [low, high] = map of_nat [0..<51]"
    unfolding fixed_levels_def r1 by (rule exact_linspace_0_50)
  show "fixed_levels exact_linspace [low, high, low] = map of_nat [0..<51]"
    unfolding fixed_levels_def r2 by (rule exact_linspace_0_50)
  show "fixed_levels exact_linspace [ramp] = exact_linspace 1 6 51"
    unfolding fixed_levels_def r3 by (rule refl)
qed

lemma increasing_examples:
  "increasing (fixed_levels exact_linspace [low, high])"
  "increasing (fixed_levels exact_linspace [low, high, low])"
  "increasing (fixed_levels exact_linspace [ramp])"
  using exact_linspace_increasing [of 0 50 51] exact_linspace_increasing [of 1 6 51]
  by (simp_all add: levels_examples exact_linspace_0_50 [symmetric])

lemma coincident_examples:
  "1 < length (exact_linspace m m 51)" "\<not> sorted_wrt (<) (exact_linspace m m 51)"
  by (simp_all add: exact_linspace_constant replicate_not_increasing)

lemma lacks_grid_example: "lacks_grid (fresh flux23) (DataArray (flux23\<lparr>da_z := None\<rparr>))"
  by (simp add: lacks_grid_def)

lemma misfit_example: "\<not> fits (2, 3) (flat [1, 2])"
  by (simp add: fits_def flat_def)

lemma tall_example: "fits (2, 3) tall" "gridded (2, 3) tall = \<lparr>nd_shape = [2, 3], nd_vals = [1, 2, 3, 4, 5, 6]\<rparr>"
  by (simp_all add: fits_def tall_def gridded_def)

lemma tall_plot:
  "\<exists>cs st'. plot checking_backend (NdArray tall) None kw_none (opened flux23, one_figure) = (Inr cs, st') \<and>
     arg_z (cs_call cs) = \<lparr>nd_shape = [2, 3], nd_vals = [1, 2, 3, 4, 5, 6]\<rparr>"
  by (simp add: plot_def axes_def contour_args_def shape_def reshape_def opened_def flux23_def
      tall_def kw_none_def one_figure_def checking_backend_def drawable_def consistent_def
      add_handle_def surface_of_def Let_def)

lemma settled_plot:
  "fst (plot lenient_backend (DataArray flux32) None kw_none (settled, one_figure)) =
     Inr \<lparr>cs_id = 0, cs_fig = 0,
          cs_call = \<lparr>arg_x = [1, 2], arg_y = [0, 1, 2],
            arg_z = \<lparr>nd_shape = [2, 3], nd_vals = [1, 2, 3, 4, 5, 6]\<rparr>, arg_colors = ''gray'',
            arg_linestyles = ''-'', arg_levels = Values [2, 4]\<rparr>,
          cs_levels = [2, 4]\<rparr>"
  by (simp add: plot_def axes_def contour_args_def shape_def reshape_def settled_def opened_def
      flux32_def tall_def kw_none_def one_figure_def lenient_backend_def add_handle_def Let_def)

subsection \<open>One frame per index\<close>

text \<open>
  On an instance that never opened its axes, \<open>del self.axes\<close> raises before anything is
  drawn.
\<close>

lemma next_image_needs_axes:
  "cached_axes c = None \<Longrightarrow>
   next_image lin lib efit prediction (c, p) = (([], Some (AttributeError ''axes'')), c, p)"
  by (simp add: next_image_def del_axes_def)

text \<open>
  C1, as the code has it. Let the instance have its grid, of at least 2 by 2, and its axes
  opened; let ground truth and prediction have the same length \<open>N > 0\<close> and consist of fields
  that fit the grid; let the 51 levels \<open>np.linspace\<close> returns for the range of the ground
  truth be strictly increasing (so the ground truth is not constant); and let the plotting
  library draw a drawable call at increasing levels. Then \<open>_next_image\<close> raises nothing and
  yields exactly \<open>N\<close> images, and the image at index \<open>i\<close> shows the ground truth and the
  prediction of index \<open>i\<close>.
\<close>

theorem next_image_one_frame_per_index:
  assumes "draws lib" "grid c x y sh" "2 \<le> fst sh" "2 \<le> snd sh" "cached_axes c \<noteq> None"
    "efit \<noteq> []" "length efit = length prediction"
    "\<forall>a\<in>set efit. fits sh a" "\<forall>a\<in>set prediction. fits sh a"
    "increasing (fixed_levels lin efit)"
  shows "snd (fst (next_image lin lib efit prediction (c, p))) = None \<and>
    length (fst (fst (next_image lin lib efit prediction (c, p)))) = length efit \<and>
    (\<forall>i<length efit. shown_fields (fst (fst (next_image lin lib efit prediction (c, p))) ! i) =
       [gridded sh (efit ! i), gridded sh (prediction ! i)])"
proof -
  let ?frames = "fst (fst (next_image lin lib efit prediction (c, p)))"
  from assms(6,7) have np: "prediction \<noteq> []" by auto
  from next_image_frames [OF assms(1,2,3,4,5,6) np assms(8,9,10), of p]
  have ok: "snd (fst (next_image lin lib efit prediction (c, p))) = None"
    and fr: "map shown_fields ?frames =
      map (\<lambda>(e, pr). [gridded sh e, gridded sh pr]) (zip efit prediction)"
    by simp_all
  from fr have "length (map shown_fields ?frames) = length (zip efit prediction)" by simp
  with assms(7) have len: "length ?frames = length efit" by simp
  have "shown_fields (?frames ! i) = [gridded sh (efit ! i), gridded sh (prediction ! i)]"
    if "i < length efit" for i
  proof -
    have "shown_fields (?frames ! i) = map shown_fields ?frames ! i"
      using that len by simp
    also have "\<dots> = [gridded sh (efit ! i), gridded sh (prediction ! i)]"
      using that assms(7) by (simp add: fr)
    finally show ?thesis .
  qed
  with ok len show ?thesis by blast
qed

theorem next_image_one_frame_per_index_witness:
  "snd (fst (next_image exact_linspace checking_backend [low, high] [high, low]
      (opened flux23, one_figure))) = None \<and>
   length (fst (fst (next_image exact_linspace checking_backend [low, high] [high, low]
      (opened flux23, one_figure)))) = 2 \<and>
   shown_fields (fst (fst (next_image exact_linspace checking_backend [low, high] [high, low]
      (opened flux23, one_figure))) ! 1) = [gridded (2, 3) high, gridded (2, 3) low]"
proof -
  have ax: "cached_axes (opened flux23) \<noteq> None" by (simp add: opened_def)
  have f: "\<forall>a\<in>set [low, high]. fits (2, 3) a" "\<forall>a\<in>set [high, low]. fits (2, 3) a"
    by (simp_all add: fits_examples)
  from next_image_one_frame_per_index [OF draws_checking grid_opened23 _ _ ax _ _ f
      increasing_examples(1), of one_figure]
  show ?thesis by simp
qed

text \<open>
  C1 as stated fails: a constant ground truth is a pair of valid fields, but its 51 levels
  coincide, the plotting library refuses them with \<open>ValueError\<close>, which \<open>plot\<close> does not
  catch, and no image is yielded.
\<close>

theorem constant_ground_truth_yields_no_frame:
  "length [fives, fives] = length [dip, ramp] \<and>
   fst (next_image exact_linspace checking_backend [fives, fives] [dip, ramp]
     (opened flux23, one_figure)) = ([], Some ValueError)"
proof -
  have ax: "cached_axes (opened flux23) \<noteq> None" by (simp add: opened_def)
  have "fits (2, 3) (last [fives, fives])" by (simp add: fits_examples)
  from next_image_refused [where lin = exact_linspace and p = one_figure,
      OF refuses_checking grid_opened23 _ _ ax _ _ this range_examples(7,8) coincident_examples]
  show ?thesis by simp
qed

subsection \<open>Sequences of different lengths\<close>

text \<open>
  C2, as the code has it. Nothing compares the two lengths: \<open>zip\<close> stops at the shorter
  sequence. Let the instance have its grid, of at least 2 by 2, and its axes opened; let
  ground truth and prediction be non-empty and consist of fields that fit the grid; let
  the 51 levels for the range of the ground truth be strictly increasing; and let the
  plotting library draw a drawable call at increasing levels. Then \<open>_next_image\<close> raises
  nothing and yields one image for each index of the shorter sequence, the image at index
  \<open>i\<close> showing the pair of index \<open>i\<close>.
\<close>

theorem next_image_truncates:
  assumes "draws lib" "grid c x y sh" "2 \<le> fst sh" "2 \<le> snd sh" "cached_axes c \<noteq> None"
    "efit \<noteq> []" "prediction \<noteq> []"
    "\<forall>a\<in>set efit. fits sh a" "\<forall>a\<in>set prediction. fits sh a"
    "increasing (fixed_levels lin efit)"
  shows "snd (fst (next_image lin lib efit prediction (c, p))) = None \<and>
    length (fst (fst (next_image lin lib efit prediction (c, p)))) = min (length efit) (length prediction) \<and>
    (\<forall>i<min (length efit) (length prediction).
       shown_fields (fst (fst (next_image lin lib efit prediction (c, p))) ! i) =
         [gridded sh (efit ! i), gridded sh (prediction ! i)])"
proof -
  let ?frames = "fst (fst (next_image lin lib efit prediction (c, p)))"
  from next_image_frames [OF assms, of p]
  have ok: "snd (fst (next_image lin lib efit prediction (c, p))) = None"
    and fr: "map shown_fields ?frames =
      map (\<lambda>(e, pr). [gridded sh e, gridded sh pr]) (zip efit prediction)"
    by simp_all
  from fr have "length (map shown_fields ?frames) = length (zip efit prediction)" by simp
  then have len: "length ?frames = min (length efit) (length prediction)" by simp
  have "shown_fields (?frames ! i) = [gridded sh (efit ! i), gridded sh (prediction ! i)]"
    if "i < min (length efit) (length prediction)" for i
  proof -
    have "shown_fields (?frames ! i) = map shown_fields ?frames ! i"
      using that len by simp
    also have "\<dots> = [gridded sh (efit ! i), gridded sh (prediction ! i)]"
      using that by (simp add: fr)
    finally show ?thesis .
  qed
  with ok len show ?thesis by blast
qed

theorem next_image_truncates_witness:
  "snd (fst (next_image exact_linspace checking_backend [low, high, low] [high, low]
      (opened flux23, one_figure))) = None \<and>
   length (fst (fst (next_image exact_linspace checking_backend [low, high, low] [high, low]
      (opened flux23, one_figure)))) = 2 \<and>
   shown_fields (fst (fst (next_image exact_linspace checking_backend [low, high, low] [high, low]
      (opened flux23, one_figure))) ! 1) = [gridded (2, 3) high, gridded (2, 3) low]"
proof -
  have ax: "cached_axes (opened flux23) \<noteq> None" by (simp add: opened_def)
  have f: "\<forall>a\<in>set [low, high, low]. fits (2, 3) a" "\<forall>a\<in>set [high, low]. fits (2, 3) a"
    by (simp_all add: fits_examples)
  from next_image_truncates [OF draws_checking grid_opened23 _ _ ax _ _ f
      increasing_examples(2), of one_figure]
  show ?thesis by simp
qed

text \<open>
  C2 as stated fails: with a ground truth of one field and a prediction of two, no error is
  raised and one image is yielded.
\<close>

theorem unequal_lengths_raise_nothing:
  "length [ramp] \<noteq> length [ramp, dip] \<and>
   snd (fst (next_image exact_linspace checking_backend [ramp] [ramp, dip]
     (opened flux23, one_figure))) = None \<and>
   length (fst (fst (next_image exact_linspace checking_backend [ramp] [ramp, dip]
     (opened flux23, one_figure)))) = 1"
proof -
  let ?frames = "fst (fst (next_image exact_linspace checking_backend [ramp] [ramp, dip]
     (opened flux23, one_figure)))"
  have ax: "cached_axes (opened flux23) \<noteq> None" by (simp add: opened_def)
  have f: "\<forall>a\<in>set [ramp]. fits (2, 3) a" "\<forall>a\<in>set [ramp, dip]. fits (2, 3) a"
    by (simp_all add: fits_examples)
  from next_image_frames [OF draws_checking grid_opened23 _ _ ax _ _ f increasing_examples(3),
      of one_figure]
  have ok: "snd (fst (next_image exact_linspace checking_backend [ramp] [ramp, dip]
      (opened flux23, one_figure))) = None"
    and fr: "map shown_fields ?frames =
      map (\<lambda>(e, pr). [gridded (2, 3) e, gridded (2, 3) pr]) (zip [ramp] [ramp, dip])"
    by simp_all
  have "length (map shown_fields ?frames) = 1" unfolding fr by simp
  then have "length ?frames = 1" by simp
  with ok show ?thesis by simp
qed

subsection \<open>The grid error of \<open>plot\<close>\<close>

text \<open>
  C3, as the code has it. \<open>plot\<close> raises its grid error, the \<open>AttributeError\<close> with the
  message about the coordinates, when no grid coordinates can be found. The shape of the
  field is not compared with the grid: a plain array with another number of elements
  fails in \<open>reshape\<close> with \<open>ValueError\<close>, and one with the same number of elements is
  reshaped to the shape of the instance whatever its own shape, and drawn, unless the
  plotting library itself refuses the (consistent) call.
\<close>

theorem plot_grid_errors:
  "(lacks_grid c d \<longrightarrow> fst (plot lib d l kw (c, p)) = Inl (AttributeError grid_message)) \<and>
   (grid c x y sh \<and> \<not> fits sh a \<longrightarrow> fst (plot lib (NdArray a) l kw (c, p)) = Inl ValueError) \<and>
   (grid c x y sh \<and> fits sh a \<longrightarrow>
      (case plot lib (NdArray a) l kw (c, p) of
         (Inr cs, _) \<Rightarrow> arg_z (cs_call cs) = gridded sh a
       | (Inl e, _) \<Rightarrow>
           (\<exists>cl e'. arg_z cl = gridded sh a \<and> consistent cl \<and> lib cl = Inl e' \<and> e = reraise e')))"
proof (intro conjI impI)
  assume "lacks_grid c d"
  then show "fst (plot lib d l kw (c, p)) = Inl (AttributeError grid_message)"
    by (rule plot_lacks_grid)
next
  assume "grid c x y sh \<and> \<not> fits sh a"
  then have "grid c x y sh" "\<not> fits sh a" by simp_all
  then show "fst (plot lib (NdArray a) l kw (c, p)) = Inl ValueError"
    by (rule plot_misfit)
next
  assume "grid c x y sh \<and> fits sh a"
  then have "grid c x y sh" "fits sh a" by simp_all
  then show "(case plot lib (NdArray a) l kw (c, p) of
         (Inr cs, _) \<Rightarrow> arg_z (cs_call cs) = gridded sh a
       | (Inl e, _) \<Rightarrow>
           (\<exists>cl e'. arg_z cl = gridded sh a \<and> consistent cl \<and> lib cl = Inl e' \<and> e = reraise e'))"
    by (rule plot_fit)
qed

theorem plot_grid_errors_witness:
  "fst (plot checking_backend (DataArray (flux23\<lparr>da_z := None\<rparr>)) None kw_none (fresh flux23, no_figure)) =
     Inl (AttributeError grid_message) \<and>
   fst (plot checking_backend (NdArray (flat [1, 2])) None kw_none (opened flux23, one_figure)) =
     Inl ValueError \<and>
   (case plot checking_backend (NdArray tall) None kw_none (opened flux23, one_figure) of
      (Inr cs, _) \<Rightarrow> arg_z (cs_call cs) = gridded (2, 3) tall
    | (Inl e, _) \<Rightarrow> 
        (\<exists>cl e'. arg_z cl = gridded (2, 3) tall \<and> consistent cl \<and> checking_backend cl = Inl e' \<and> e = reraise e'))"
proof -
  note t1 = plot_grid_errors [of "fresh flux23" "DataArray (flux23\<lparr>da_z := None\<rparr>)"
      checking_backend None kw_none no_figure "[1, 2, 3]" "[0, 1]" "(2, 3)" "flat [1, 2]"]
  note t2 = plot_grid_errors [of "opened flux23" NoData checking_backend None
      kw_none one_figure "[1, 2, 3]" "[0, 1]" "(2, 3)" "flat [1, 2]"]
  note t3 = plot_grid_errors [of "opened flux23" NoData checking_backend None
      kw_none one_figure "[1, 2, 3]" "[0, 1]" "(2, 3)" tall]
  from t1 [THEN conjunct1, rule_format, OF lacks_grid_example]
    t2 [THEN conjunct2, THEN conjunct1, rule_format, OF conjI [OF grid_opened23 misfit_example]]
    t3 [THEN conjunct2, THEN conjunct2, rule_format, OF conjI [OF grid_opened23 tall_example(1)]]
  show ?thesis by (intro conjI)
qed

text \<open>
  C3 as stated fails: a field of shape 3 by 2 on an instance whose grid is 2 by 3 is
  reshaped and drawn without any error.
\<close>

theorem other_shape_is_reshaped_silently:
  "nd_shape tall = [3, 2] \<and>
   grid (opened flux23) [1, 2, 3] [0, 1] (2, 3) \<and>
   (case plot checking_backend (NdArray tall) None kw_none (opened flux23, one_figure) of
      (Inr cs, _) \<Rightarrow> arg_z (cs_call cs) = \<lparr>nd_shape = [2, 3], nd_vals = [1, 2, 3, 4, 5, 6]\<rparr>
    | (Inl e, _) \<Rightarrow> False)"
proof -
  from tall_plot
  have "(case plot checking_backend (NdArray tall) None kw_none (opened flux23, one_figure) of
      (Inr cs, _) \<Rightarrow> arg_z (cs_call cs) = \<lparr>nd_shape = [2, 3], nd_vals = [1, 2, 3, 4, 5, 6]\<rparr>
    | (Inl e, _) \<Rightarrow> False)"
    by auto
  moreover have "nd_shape tall = [3, 2]" by (simp add: tall_def)
  ultimately show ?thesis using grid_opened23 by (intro conjI)
qed

subsection \<open>The levels of an animation\<close>

text \<open>
  C4. \<open>_next_image\<close> computes the levels once, as the 51 values \<open>np.linspace\<close> returns for
  the minimum and the maximum of the whole ground truth, and every contour set of every
  image it yields was drawn with exactly these levels, asked for and returned; when the
  run ends without error they are still the levels of the instance. This holds for every
  run, whatever the instance and the sequences, also when the run ends in an error. The
  class passes to each call the levels the previous contour set came back with, so it
  rests on the plotting library returning the levels it was asked to draw.
\<close>

theorem levels_fixed_from_global_range:
  assumes "faithful lib"
  shows "(\<forall>img\<in>set (fst (fst (next_image lin lib efit prediction (c, p)))). \<forall>a\<in>set (artists img).
       arg_levels (cs_call a) =
         Values (lin (Min (set (concat (map nd_vals efit)))) (Max (set (concat (map nd_vals efit)))) 51) \<and>
       cs_levels a =
         lin (Min (set (concat (map nd_vals efit)))) (Max (set (concat (map nd_vals efit)))) 51) \<and>
    (snd (fst (next_image lin lib efit prediction (c, p))) = None \<longrightarrow>
       levels (fst (snd (next_image lin lib efit prediction (c, p)))) =
         Values (lin (Min (set (concat (map nd_vals efit)))) (Max (set (concat (map nd_vals efit)))) 51))"
  using next_image_leveled [OF assms, of lin efit prediction c p]
  by (simp add: list_all_iff with_levels_def fixed_levels_def)

theorem levels_fixed_from_global_range_witness:
  "length (fst (fst (next_image exact_linspace checking_backend [low, high] [high, low]
      (opened flux23, one_figure)))) = 2 \<and>
   list_all (\<lambda>img. length (artists img) = 2 \<and>
       list_all (\<lambda>a. arg_levels (cs_call a) = Values (map of_nat [0..<51]) \<and>
                     cs_levels a = map of_nat [0..<51]) (artists img))
     (fst (fst (next_image exact_linspace checking_backend [low, high] [high, low]
        (opened flux23, one_figure)))) \<and>
   levels (fst (snd (next_image exact_linspace checking_backend [low, high] [high, low]
      (opened flux23, one_figure)))) = Values (map of_nat [0..<51])"
proof -
  let ?r = "next_image exact_linspace checking_backend [low, high] [high, low]
      (opened flux23, one_figure)"
  have ax: "cached_axes (opened flux23) \<noteq> None" by (simp add: opened_def)
  have f: "\<forall>a\<in>set [low, high]. fits (2, 3) a" "\<forall>a\<in>set [high, low]. fits (2, 3) a"
    by (simp_all add: fits_examples)
  from next_image_frames [OF draws_checking grid_opened23 _ _ ax _ _ f increasing_examples(1),
      of one_figure]
  have ok: "snd (fst ?r) = None"
    and fr: "map shown_fields (fst (fst ?r)) =
      [[gridded (2, 3) low, gridded (2, 3) high], [gridded (2, 3) high, gridded (2, 3) low]]"
    by simp_all
  from fr obtain s1 s2 where F: "fst (fst ?r) = [s1, s2]" by auto
  from fr F have two: "length (artists s1) = 2" "length (artists s2) = 2"
    by (auto simp: shown_fields_def dest: arg_cong [where f = length])
  note fixed = levels_examples(1) [unfolded fixed_levels_def]
  from levels_fixed_from_global_range [OF faithful_checking, of exact_linspace "[low, high]"
      "[high, low]" "opened flux23" one_figure] ok
  have "\<forall>img\<in>set (fst (fst ?r)). \<forall>a\<in>set (artists img).
       arg_levels (cs_call a) = Values (map of_nat [0..<51]) \<and> cs_levels a = map of_nat [0..<51]"
    and "levels (fst (snd ?r)) = Values (map of_nat [0..<51])"
    unfolding fixed by blast+
  with F two show ?thesis by (simp add: list_all_iff)
qed

subsection \<open>A constant ground truth\<close>

text \<open>
  C8, as the code has it. Let the minimum of the ground truth equal its maximum \<open>m\<close>, on
  an instance with its grid, of at least 2 by 2, and its axes opened, the sequences
  non-empty and the last ground-truth field fitting the grid. The class then sets its
  levels to \<open>np.linspace(m, m, 51)\<close>, 51 copies of \<open>m\<close> (one distinct level), and passes
  them to the first contour call. A plotting library that refuses levels that are not
  strictly increasing raises \<open>ValueError\<close>, which \<open>plot\<close> does not catch: \<open>_next_image\<close>
  raises \<open>ValueError\<close> before it yields any image.
\<close>

theorem constant_ground_truth_is_refused:
  assumes "refuses lib" "grid c x y sh" "2 \<le> fst sh" "2 \<le> snd sh" "cached_axes c \<noteq> None"
    "efit \<noteq> []" "prediction \<noteq> []" "fits sh (last efit)"
    "array_min efit = Inr m" "array_max efit = Inr m" "lin m m 51 = replicate 51 m"
  shows "fst (next_image lin lib efit prediction (c, p)) = ([], Some ValueError) \<and>
    levels (fst (snd (next_image lin lib efit prediction (c, p)))) = Values (replicate 51 m) \<and>
    set (replicate 51 m) = {m}"
proof -
  have bad: "1 < length (lin m m 51)" "\<not> sorted_wrt (<) (lin m m 51)"
    by (simp_all add: assms(11) replicate_not_increasing)
  from next_image_refused [where lin = lin and p = p, OF assms(1-10) bad]
  show ?thesis by (simp add: assms(11))
qed

theorem constant_ground_truth_is_refused_witness:
  "fst (next_image exact_linspace checking_backend [fives, fives] [low, high]
     (opened flux23, one_figure)) = ([], Some ValueError) \<and>
   levels (fst (snd (next_image exact_linspace checking_backend [fives, fives] [low, high]
     (opened flux23, one_figure)))) = Values (replicate 51 5)"
proof -
  have ax: "cached_axes (opened flux23) \<noteq> None" by (simp add: opened_def)
  have f: "fits (2, 3) (last [fives, fives])" by (simp add: fits_examples)
  from constant_ground_truth_is_refused [where lin = exact_linspace and p = one_figure,
      OF refuses_checking grid_opened23 _ _ ax _ _ f range_examples(7,8)
        exact_linspace_constant]
  show ?thesis by simp
qed

text \<open>
  C8 as stated fails: on a ground truth of one constant field, \<open>_next_image\<close> raises
  \<open>ValueError\<close>.
\<close>

theorem constant_field_raises:
  "array_min [fives] = array_max [fives] \<and>
   snd (fst (next_image exact_linspace checking_backend [fives] [fives]
     (opened flux23, one_figure))) = Some ValueError"
proof -
  have ax: "cached_axes (opened flux23) \<noteq> None" by (simp add: opened_def)
  have "fits (2, 3) (last [fives])" by (simp add: fits_examples)
  from next_image_refused [where lin = exact_linspace and p = one_figure,
      OF refuses_checking grid_opened23 _ _ ax _ _ this range_examples(9,10) coincident_examples]
  show ?thesis by (simp add: range_examples)
qed

subsection \<open>The order of the drawing calls\<close>

text \<open>
  C7, as the code has it. Under the conditions of C1 (an instance with its grid, of at
  least 2 by 2, and its axes opened; sequences of the same length \<open>N > 0\<close> of fields that
  fit; 51 strictly increasing levels; a plotting library that draws a drawable call at
  increasing levels), the calls \<open>_next_image\<close> makes into the plotting library are, in
  order: a new figure is opened (the old axes were dropped and the legend handles emptied
  first); the last pair of fields is drawn; the legend is drawn, once, with the two labels
  only; then for each index, first to last, the contour sets of the previous step are
  removed, the pair of that index is drawn, and the figure is rendered. The images yielded
  show exactly the pair of their index under that legend.
\<close>

theorem next_image_order_of_calls:
  assumes "draws lib" "grid c x y sh" "2 \<le> fst sh" "2 \<le> snd sh" "cached_axes c \<noteq> None"
    "efit \<noteq> []" "length efit = length prediction"
    "\<forall>a\<in>set efit. fits sh a" "\<forall>a\<in>set prediction. fits sh a"
    "increasing (fixed_levels lin efit)"
  shows "\<exists>a0 b0 ds st'.
    next_image lin lib efit prediction (c, p) = ((map frame_of ds, None), st') \<and>
    journal (snd st') = journal p @
      [Subplots (length (figures p)), Contoured a0, Contoured b0,
       Legend (length (figures p)) [efit_handle, prediction_handle]] @
      concat (map (block (length (figures p))) (zip ([a0, b0] # ds) ds)) \<and>
    length (filter is_legend (drop (length (journal p)) (journal (snd st')))) = 1 \<and>
    shown_fields (frame_of [a0, b0]) = [gridded sh (last efit), gridded sh (last prediction)] \<and>
    length ds = length efit \<and>
    map shown_fields (map frame_of ds) =
      map (\<lambda>(e, pr). [gridded sh e, gridded sh pr]) (zip efit prediction)"
proof -
  from assms(6,7) have np: "prediction \<noteq> []" by auto
  from next_image_ready [OF assms(1,2,3,4,5,6) np assms(8,9,10), of p] obtain a0 b0 ds c' p' where
    ni: "next_image lin lib efit prediction (c, p) = ((map frame_of ds, None), c', p')"
    and fo: "follows lib x y sh (Values (fixed_levels lin efit))
       ((last efit, last prediction) # zip efit prediction) ([a0, b0] # ds)"
    and jo: "journal p' = journal p @
       [Subplots (length (figures p)), Contoured a0, Contoured b0,
        Legend (length (figures p)) [efit_handle, prediction_handle]] @
       concat (map (block (length (figures p))) (zip ([a0, b0] # ds) ds))"
    by blast
  from fo have tl: "follows lib x y sh (Values (cs_levels b0)) (zip efit prediction) ds"
    and hd: "cs_call a0 = mk_call x y sh (last efit) ''gray'' (Values (fixed_levels lin efit))"
      "cs_call b0 = mk_call x y sh (last prediction) ''C0'' (Values (cs_levels a0))"
    by simp_all
  have once: "length (filter is_legend (drop (length (journal p)) (journal p'))) = 1"
    unfolding jo by (simp add: no_legend_in_blocks) (simp add: is_legend_def)
  have first: "shown_fields (frame_of [a0, b0]) = [gridded sh (last efit), gridded sh (last prediction)]"
    by (simp add: shown_fields_def frame_of_def hd mk_call_def)
  have len: "length ds = length efit"
    using follows_length [OF tl] assms(7) by simp
  from ni jo once first len follows_fields [OF tl] show ?thesis
    by (intro exI [of _ a0] exI [of _ b0] exI [of _ ds] exI [of _ "(c', p')"]) simp
qed

theorem next_image_order_of_calls_witness:
  "\<exists>a0 b0 ds st'.
    next_image exact_linspace checking_backend [low, high] [high, low] (opened flux23, one_figure) =
      ((map frame_of ds, None), st') \<and>
    journal (snd st') = journal one_figure @
      [Subplots (length (figures one_figure)), Contoured a0, Contoured b0,
       Legend (length (figures one_figure)) [efit_handle, prediction_handle]] @
      concat (map (block (length (figures one_figure))) (zip ([a0, b0] # ds) ds)) \<and>
    length (filter is_legend (drop (length (journal one_figure)) (journal (snd st')))) = 1 \<and>
    shown_fields (frame_of [a0, b0]) =
      [gridded (2, 3) (last [low, high]), gridded (2, 3) (last [high, low])] \<and>
    length ds = length [low, high] \<and>
    map shown_fields (map frame_of ds) =
      map (\<lambda>(e, pr). [gridded (2, 3) e, gridded (2, 3) pr]) (zip [low, high] [high, low])"
proof -
  have ax: "cached_axes (opened flux23) \<noteq> None" by (simp add: opened_def)
  have f: "\<forall>a\<in>set [low, high]. fits (2, 3) a" "\<forall>a\<in>set [high, low]. fits (2, 3) a"
    by (simp_all add: fits_examples)
  from next_image_order_of_calls [OF draws_checking grid_opened23 _ _ ax _ _ f
      increasing_examples(1), of one_figure]
  show ?thesis by simp
qed

text \<open>
  C7 as stated fails: on a constant ground truth the first contour call raises, after the
  new figure was opened; nothing is drawn and the legend is never built.
\<close>

theorem constant_ground_truth_builds_no_legend:
  "length [fives, fives] = length [fives, fives] \<and>
   snd (fst (next_image exact_linspace checking_backend [fives, fives] [fives, fives]
     (opened flux23, one_figure))) = Some ValueError \<and>
   journal (snd (snd (next_image exact_linspace checking_backend [fives, fives] [fives, fives]
     (opened flux23, one_figure)))) = journal one_figure @ [Subplots 1]"
proof -
  have ax: "cached_axes (opened flux23) \<noteq> None" by (simp add: opened_def)
  have "fits (2, 3) (last [fives, fives])" by (simp add: fits_examples)
  from next_image_refused [where lin = exact_linspace and p = one_figure,
      OF refuses_checking grid_opened23 _ _ ax _ _ this range_examples(7,8) coincident_examples]
  show ?thesis by (simp add: one_figure_def)
qed

subsection \<open>Empty sequences\<close>

lemma next_image_empty:
  "fst (next_image lin lib [] prediction (c, p)) =
     ([], Some (if cached_axes c = None then AttributeError ''axes'' else ValueError))"
  by (simp add: next_image_def del_axes_def array_min_def Let_def split: option.splits)

text \<open>
  C6, as the code has it. With a ground truth of length 0, \<open>_next_image\<close> raises before it
  yields anything: \<open>ValueError\<close> from the minimum of an array without elements (or the
  \<open>AttributeError\<close> of \<open>del self.axes\<close> on an instance without axes), and \<open>to_gif\<close> raises
  the same error. The \<open>imgs[0]\<close> of \<open>to_gif\<close> is never reached with an empty list.
\<close>

theorem empty_sequences_raise:
  "fst (next_image lin lib [] prediction (c, p)) =
     ([], Some (if cached_axes c = None then AttributeError ''axes'' else ValueError)) \<and>
   fst (to_gif lin lib [] prediction (c, p)) =
     Inl (if cached_axes c = None then AttributeError ''axes'' else ValueError)"
proof -
  obtain st' where "next_image lin lib [] prediction (c, p) =
      (([], Some (if cached_axes c = None then AttributeError ''axes'' else ValueError)), st')"
    using next_image_empty [of lin lib prediction c p]
    by (cases "next_image lin lib [] prediction (c, p)") auto
  then show ?thesis by (simp add: to_gif_def)
qed

theorem empty_sequences_raise_witness:
  "fst (next_image exact_linspace checking_backend [] [] (fresh flux23, no_figure)) =
     ([], Some (AttributeError ''axes'')) \<and>
   fst (to_gif exact_linspace checking_backend [] [] (opened flux23, one_figure)) = Inl ValueError"
  using empty_sequences_raise [of exact_linspace checking_backend "[]" "fresh flux23" no_figure]
    empty_sequences_raise [of exact_linspace checking_backend "[]" "opened flux23" one_figure]
  by (simp add: fresh_def opened_def)

text \<open>C6 as stated fails: on empty sequences \<open>_next_image\<close> does raise.\<close>

theorem animate_of_nothing_raises:
  "snd (fst (next_image exact_linspace checking_backend [] [] (opened flux23, one_figure))) =
     Some ValueError"
  using next_image_empty [of exact_linspace checking_backend "[]" "opened flux23" one_figure]
  by (simp add: opened_def)

subsection \<open>The GIF of constant fields\<close>

lemma constant_range:
  assumes "0 < n" "set (nd_vals a) = {v}"
  shows "array_min (replicate n a) = Inr v" "array_max (replicate n a) = Inr v"
proof -
  have s: "set (concat (map nd_vals (replicate n a))) = {v}" using assms by auto
  then have ne: "concat (map nd_vals (replicate n a)) \<noteq> []" by auto
  show "array_min (replicate n a) = Inr v" unfolding array_min_Min [OF ne] s by simp
  show "array_max (replicate n a) = Inr v" unfolding array_max_Max [OF ne] s by simp
qed

text \<open>
  C5, as the code has it. For a ground truth of \<open>n > 0\<close> identical fields of one constant
  value \<open>v\<close> (the 10 fields of ones of the scenario among them), on an instance with its
  grid, of at least 2 by 2, fitting the fields, and its axes opened, the 51 levels
  \<open>np.linspace(v, v, 51)\<close> coincide; a plotting library that refuses levels that are not
  strictly increasing raises \<open>ValueError\<close> at the first contour call, and \<open>to_gif\<close> raises
  it: \<open>imgs[0].save\<close> is never reached and no file is written.
\<close>

theorem gif_of_constant_fields_is_refused:
  assumes "refuses lib" "grid c x y sh" "2 \<le> fst sh" "2 \<le> snd sh" "cached_axes c \<noteq> None"
    "0 < n" "prediction \<noteq> []" "fits sh a" "set (nd_vals a) = {v}"
    "lin v v 51 = replicate 51 v"
  shows "fst (to_gif lin lib (replicate n a) prediction (c, p)) = Inl ValueError"
proof -
  have ne: "replicate n a \<noteq> []" using assms(6) by simp
  have fl: "fits sh (last (replicate n a))" using assms(6,8) by simp
  have bad: "1 < length (lin v v 51)" "\<not> sorted_wrt (<) (lin v v 51)"
    by (simp_all add: assms(10) replicate_not_increasing)
  show ?thesis
    by (rule to_gif_refused [where lin = lin and lo = v and hi = v,
          OF assms(1-5) ne assms(7) fl constant_range [OF assms(6,9)] bad])
qed

theorem gif_of_constant_fields_is_refused_witness:
  "fst (to_gif exact_linspace checking_backend (replicate 3 fives) [low, high, low]
     (opened flux23, one_figure)) = Inl ValueError"
proof -
  have ax: "cached_axes (opened flux23) \<noteq> None" by (simp add: opened_def)
  have v: "set (nd_vals fives) = {5}" by (simp add: fives_def flat_def)
  from gif_of_constant_fields_is_refused [where lin = exact_linspace and p = one_figure and n = 3,
      OF refuses_checking grid_opened23 _ _ ax _ _ fits_examples(5) v exact_linspace_constant]
  show ?thesis by simp
qed

text \<open>
  C5 as stated fails: for ten identical fields of ones on the grid of 8 by 6, \<open>to_gif\<close>
  raises \<open>ValueError\<close> and hands nothing to the encoder.
\<close>

theorem gif_of_ten_fields_of_ones_raises:
  "fst (to_gif exact_linspace checking_backend (replicate 10 ones) (replicate 10 ones)
     (opened flux86, one_figure)) = Inl ValueError"
proof -
  have ax: "cached_axes (opened flux86) \<noteq> None" by (simp add: opened_def)
  have ne: "replicate 10 ones \<noteq> []" by simp
  have fl: "fits (8, 6) (last (replicate 10 ones))" by (simp add: fits_def ones_def flat_def)
  have v: "set (nd_vals ones) = {1}" by (simp add: ones_def flat_def)
  have pos: "0 < (10 :: nat)" by simp
  from to_gif_refused [where lin = exact_linspace and p = one_figure,
      OF refuses_checking grid_opened86 _ _ ax ne ne fl constant_range [OF pos v]
        coincident_examples]
  show ?thesis by simp
qed

subsection \<open>The cached shape\<close>

lemma shape_cached: "cached_shape c = Some sh \<Longrightarrow> shape c = (Inr sh, c)"
  by (simp add: shape_def)

lemma shape_first_access:
  assumes "cached_shape c = None" "fst (shape c) = Inr sh"
  shows "(\<exists>mf. magnetic_flux c = Some mf \<and> map_of (da_sizes mf) ''z'' = Some (fst sh) \<and>
      map_of (da_sizes mf) ''major_radius'' = Some (snd sh)) \<and>
    cached_shape (snd (shape c)) = Some sh"
  using assms by (auto simp: shape_def split: option.splits)

lemma contour_args_cached:
  assumes "cached_shape c = Some sh"
  shows "snd (contour_args c arr kw) = c \<and>
    (case fst (contour_args c arr kw) of
       Inr cl \<Rightarrow> (\<exists>a. arr = Some a \<and> arg_z cl = gridded sh a)
     | Inl e \<Rightarrow> True)"
  using assms
  by (auto simp: contour_args_def shape_cached reshape_def gridded_def split: option.splits)

lemma axes_instance:
  "magnetic_flux (fst (snd (axes (c, p)))) = magnetic_flux c \<and>
   cached_shape (fst (snd (axes (c, p)))) = cached_shape c"
  by (simp add: axes_def Let_def split: option.splits)

lemma add_handle_instance:
  "magnetic_flux (add_handle l col c) = magnetic_flux c \<and>
   cached_shape (add_handle l col c) = cached_shape c"
  by (simp add: add_handle_def split: option.splits)

lemma plot_cached:
  assumes "cached_shape c = Some sh"
  shows "cached_shape (fst (snd (plot lib d l kw (c, p)))) = Some sh \<and>
    (case d of DataArray da \<Rightarrow> magnetic_flux (fst (snd (plot lib d l kw (c, p)))) = Some da
     | _ \<Rightarrow> magnetic_flux (fst (snd (plot lib d l kw (c, p)))) = magnetic_flux c) \<and>
    (case fst (plot lib d l kw (c, p)) of
       Inr cs \<Rightarrow>
         (case d of DataArray da \<Rightarrow> arg_z (cs_call cs) = gridded sh (da_values da)
          | NdArray a \<Rightarrow> arg_z (cs_call cs) = gridded sh a
          | NoData \<Rightarrow> False)
     | Inl e \<Rightarrow> True)"
proof -
  define c1 where "c1 = (case d of DataArray da \<Rightarrow> c\<lparr>magnetic_flux := Some da\<rparr> | _ \<Rightarrow> c)"
  define arr where "arr = (case d of DataArray da \<Rightarrow> Some (da_values da) | NdArray a \<Rightarrow> Some a
                   | NoData \<Rightarrow> None)"
  obtain ax c2 p1 where a: "axes (c1, p) = (ax, c2, p1)" by (cases "axes (c1, p)") auto
  have k1: "cached_shape c1 = Some sh" using assms by (simp add: c1_def split: data.splits)
  from axes_instance [of c1 p] a k1
  have k2: "cached_shape c2 = Some sh" and m2: "magnetic_flux c2 = magnetic_flux c1" by simp_all
  obtain r where ca: "contour_args c2 arr kw = (r, c2)"
    using contour_args_cached [OF k2, of arr kw] by (cases "contour_args c2 arr kw") auto
  from contour_args_cached [OF k2, of arr kw] ca
  have z: "(case r of Inr cl \<Rightarrow> (\<exists>a. arr = Some a \<and> arg_z cl = gridded sh a) | Inl e \<Rightarrow> True)"
    by simp
  have pl: "plot lib d l kw (c, p) =
     (case r of
        Inl e \<Rightarrow> (Inl (reraise e), c2, p1)
      | Inr cl \<Rightarrow>
          (case lib cl of
             Inl e \<Rightarrow> (Inl (reraise e), c2, p1)
           | Inr lv \<Rightarrow>
               (Inr \<lparr>cs_id = next_artist p1, cs_fig = ax, cs_call = cl, cs_levels = lv\<rparr>,
                add_handle l (arg_colors cl) (c2\<lparr>levels := Values lv\<rparr>),
                p1\<lparr>figures := (figures p1)[ax := (surface_of p1 ax)\<lparr>artists :=
                       artists (surface_of p1 ax) @
                       [\<lparr>cs_id = next_artist p1, cs_fig = ax, cs_call = cl, cs_levels = lv\<rparr>]\<rparr>],
                   next_artist := Suc (next_artist p1),
                   journal := journal p1 @
                     [Contoured \<lparr>cs_id = next_artist p1, cs_fig = ax, cs_call = cl, cs_levels = lv\<rparr>]\<rparr>)))"
    by (simp add: plot_def Let_def c1_def [symmetric] arr_def [symmetric] a ca split: sum.splits)
  have m1: "(case d of DataArray da \<Rightarrow> magnetic_flux c1 = Some da | _ \<Rightarrow> magnetic_flux c1 = magnetic_flux c)"
    by (simp add: c1_def split: data.splits)
  show ?thesis
  proof (cases r)
    case (Inl e)
    then show ?thesis using k2 m1 m2 unfolding pl by (simp split: data.splits)
  next
    case (Inr cl)
    with z obtain a where arr: "arr = Some a" and zz: "arg_z cl = gridded sh a" by auto
    show ?thesis
    proof (cases "lib cl")
      case (Inl e)
      then show ?thesis using Inr k2 m1 m2 unfolding pl by (simp split: data.splits)
    next
      case lv: (Inr lv)
      then show ?thesis using Inr k2 m1 m2 arr zz unfolding pl
        by (auto simp: add_handle_instance arr_def split: data.splits)
    qed
  qed
qed

lemma plot_keeps:
  "cached_shape (fst st) = Some sh \<Longrightarrow> cached_shape (fst (snd (plot lib d l kw st))) = Some sh"
  using plot_cached [of "fst st" sh lib d l kw "snd st"] by simp

lemma legend_keeps: "cached_shape (fst (legend st)) = cached_shape (fst st)"
  by (cases st) (simp add: legend_def split: prod.splits)

lemma call_keeps:
  assumes "cached_shape (fst st) = Some sh"
  shows "cached_shape (fst (snd (call lib e pr st))) = Some sh"
proof -
  let ?k = "\<lparr>kw_colors = Some ''gray'', kw_linestyles = None, kw_levels = None\<rparr>"
  obtain r1 st1 where p1: "plot lib e (Some ''EFIT++'') ?k st = (r1, st1)"
    by (cases "plot lib e (Some ''EFIT++'') ?k st") auto
  from plot_keeps [OF assms, of lib e "Some ''EFIT++''" ?k] p1
  have k1: "cached_shape (fst st1) = Some sh" by simp
  show ?thesis
  proof (cases r1)
    case (Inl err)
    then show ?thesis using k1 by (simp add: call_def p1)
  next
    case (Inr c1)
    let ?k2 = "\<lparr>kw_colors = Some ''C0'', kw_linestyles = None, kw_levels = None\<rparr>"
    obtain r2 st2 where p2: "plot lib pr (Some ''Prediction'') ?k2 st1 = (r2, st2)"
      by (cases "plot lib pr (Some ''Prediction'') ?k2 st1") auto
    from plot_keeps [OF k1, of lib pr "Some ''Prediction''" ?k2] p2
    have "cached_shape (fst st2) = Some sh" by simp
    then show ?thesis using Inr by (cases r2) (simp_all add: call_def p1 p2)
  qed
qed

lemma canvas_image_keeps: "fst (snd (canvas_image st)) = fst st"
  by (cases st) (simp add: canvas_image_def split: option.splits)

lemma sweep_keeps:
  "cached_shape (fst st) = Some sh \<Longrightarrow> cached_shape (fst (snd (sweep lib cs pairs st))) = Some sh"
proof (induction pairs arbitrary: cs st)
  case Nil
  then show ?case by simp
next
  case (Cons pair rest)
  obtain e pr where pair: "pair = (e, pr)" by (cases pair)
  let ?st0 = "(fst st, fold remove cs (snd st))"
  obtain r1 st1 where c1: "call lib (NdArray e) (NdArray pr) ?st0 = (r1, st1)"
    by (cases "call lib (NdArray e) (NdArray pr) ?st0") auto
  from call_keeps [of ?st0 sh lib "NdArray e" "NdArray pr"] Cons.prems c1
  have k1: "cached_shape (fst st1) = Some sh" by simp
  show ?case
  proof (cases r1)
    case (Inl err)
    then show ?thesis using k1 by (simp add: pair c1)
  next
    case (Inr cs')
    obtain r2 st2 where im: "canvas_image st1 = (r2, st2)" by (cases "canvas_image st1") auto
    from canvas_image_keeps [of st1] im k1 have k2: "cached_shape (fst st2) = Some sh" by simp
    show ?thesis
    proof (cases r2)
      case (Inl err)
      then show ?thesis using Inr k2 by (simp add: pair c1 im)
    next
      case img: (Inr img)
      from Cons.IH [OF k2, of cs'] show ?thesis
        using Inr img by (auto simp: pair c1 im split: prod.splits)
    qed
  qed
qed

lemma next_image_keeps:
  assumes "cached_shape c = Some sh"
  shows "cached_shape (fst (snd (next_image lin lib efit prediction (c, p)))) = Some sh"
proof (cases "cached_axes c")
  case None
  then show ?thesis using assms by (simp add: next_image_def del_axes_def)
next
  case (Some f0)
  note ni = next_image_def del_axes_def Some Let_def
  have k2: "cached_shape (c\<lparr>cached_axes := None, handles := []\<rparr>) = Some sh"
    using assms by simp
  show ?thesis
  proof (cases "array_min efit")
    case (Inl e)
    then show ?thesis using k2 by (simp add: ni)
  next
    case lo: (Inr lo)
    show ?thesis
    proof (cases "array_max efit")
      case (Inl e)
      then show ?thesis using k2 lo by (simp add: ni)
    next
      case hi: (Inr hi)
      define c3 where
        "c3 = c\<lparr>cached_axes := None, handles := [], levels := Values (lin lo hi 51)\<rparr>"
      have k3: "cached_shape c3 = Some sh" using assms by (simp add: c3_def)
      show ?thesis
      proof (cases "getitem_last efit")
        case (Inl e)
        then show ?thesis using k3 lo hi by (simp add: ni c3_def [symmetric])
      next
        case el: (Inr e_last)
        show ?thesis
        proof (cases "getitem_last prediction")
          case (Inl e)
          then show ?thesis using k3 lo hi el by (simp add: ni c3_def [symmetric])
        next
          case pl: (Inr p_last)
          obtain r1 st1 where c1: "call lib (NdArray e_last) (NdArray p_last) (c3, p) = (r1, st1)"
            by (cases "call lib (NdArray e_last) (NdArray p_last) (c3, p)") auto
          from call_keeps [of "(c3, p)" sh lib "NdArray e_last" "NdArray p_last"] k3 c1
          have k4: "cached_shape (fst st1) = Some sh" by simp
          show ?thesis
          proof (cases r1)
            case (Inl e)
            then show ?thesis using k4 lo hi el pl c1 by (simp add: ni c3_def [symmetric])
          next
            case (Inr contours)
            have "cached_shape (fst (legend st1)) = Some sh" using k4 by (simp add: legend_keeps)
            from sweep_keeps [OF this, of lib contours "zip efit prediction"]
            show ?thesis using Inr lo hi el pl c1 by (simp add: ni c3_def [symmetric])
          qed
        qed
      qed
    qed
  qed
qed

lemma to_gif_keeps:
  assumes "cached_shape (fst st) = Some sh"
  shows "cached_shape (fst (snd (to_gif lin lib efit prediction st))) = Some sh"
proof -
  obtain c p where st: "st = (c, p)" by (cases st)
  obtain imgs r st1 where ni: "next_image lin lib efit prediction (c, p) = ((imgs, r), st1)"
    by (cases "next_image lin lib efit prediction (c, p)") auto
  from next_image_keeps [of c sh lin lib efit prediction p] assms st ni
  have "cached_shape (fst st1) = Some sh" by simp
  then show ?thesis
    by (cases r; cases imgs) (simp_all add: to_gif_def st ni)
qed

lemma exec_keeps:
  "cached_shape (fst st) = Some sh \<Longrightarrow> cached_shape (fst (exec lin lib operation st)) = Some sh"
  by (cases operation) (simp_all add: plot_keeps legend_keeps call_keeps to_gif_keeps)

lemma run_keeps:
  "cached_shape (fst st) = Some sh \<Longrightarrow> cached_shape (fst (run lin lib ops st)) = Some sh"
  unfolding run_def by (induction ops arbitrary: st) (simp_all add: exec_keeps)

text \<open>
  C9. The shape is computed at the first access, from the sizes \<open>z\<close> and \<open>major_radius\<close>
  of the field bound at that moment, and cached. Once cached it is what \<open>self.shape\<close>
  returns, no operation of the class changes it, whatever the operations and whether
  they raise or not; a \<open>plot\<close> with a labelled array rebinds \<open>magnetic_flux\<close> to it, and
  still reshapes its values to the cached shape.
\<close>

theorem shape_computed_once:
  "(cached_shape c = None \<and> fst (shape c) = Inr sh \<longrightarrow>
      (\<exists>mf. magnetic_flux c = Some mf \<and> map_of (da_sizes mf) ''z'' = Some (fst sh) \<and>
         map_of (da_sizes mf) ''major_radius'' = Some (snd sh)) \<and>
      cached_shape (snd (shape c)) = Some sh) \<and>
   (cached_shape c = Some sh \<longrightarrow>
      shape c = (Inr sh, c) \<and>
      cached_shape (fst (run lin lib ops (c, p))) = Some sh \<and>
      magnetic_flux (fst (snd (plot lib (DataArray d) l kw (c, p)))) = Some d \<and>
      cached_shape (fst (snd (plot lib (DataArray d) l kw (c, p)))) = Some sh \<and>
      (case fst (plot lib (DataArray d) l kw (c, p)) of
         Inr cs \<Rightarrow> arg_z (cs_call cs) = gridded sh (da_values d)
       | Inl e \<Rightarrow> True))"
proof (intro conjI impI)
  assume "cached_shape c = None \<and> fst (shape c) = Inr sh"
  then have h: "cached_shape c = None" "fst (shape c) = Inr sh" by simp_all
  from shape_first_access [OF h]
  show "\<exists>mf. magnetic_flux c = Some mf \<and> map_of (da_sizes mf) ''z'' = Some (fst sh) \<and>
         map_of (da_sizes mf) ''major_radius'' = Some (snd sh)"
    and "cached_shape (snd (shape c)) = Some sh"
    by simp_all
next
  assume k: "cached_shape c = Some sh"
  show "shape c = (Inr sh, c)" by (rule shape_cached [OF k])
  show "cached_shape (fst (run lin lib ops (c, p))) = Some sh"
    using run_keeps [of "(c, p)" sh lin lib ops] k by simp
  from plot_cached [OF k, of lib "DataArray d" l kw p]
  show "magnetic_flux (fst (snd (plot lib (DataArray d) l kw (c, p)))) = Some d"
    and "cached_shape (fst (snd (plot lib (DataArray d) l kw (c, p)))) = Some sh"
    and "(case fst (plot lib (DataArray d) l kw (c, p)) of
         Inr cs \<Rightarrow> arg_z (cs_call cs) = gridded sh (da_values d)
       | Inl e \<Rightarrow> True)"
    by (simp_all split: sum.splits)
qed

theorem shape_computed_once_witness:
  "cached_shape (opened flux23) = None \<and>
   cached_shape (snd (shape (opened flux23))) = Some (2, 3) \<and>
   cached_shape (fst (run exact_linspace lenient_backend
      [DoPlot (DataArray flux32) None kw_none, DoLegend, DoToGif [ramp] [dip]]
      (settled, one_figure))) = Some (2, 3) \<and>
   magnetic_flux (fst (snd (plot lenient_backend (DataArray flux32) None kw_none (settled, one_figure)))) =
     Some flux32 \<and>
   da_sizes flux32 = [(''z'', 3), (''major_radius'', 2)] \<and>
   (\<exists>cs. fst (plot lenient_backend (DataArray flux32) None kw_none (settled, one_figure)) = Inr cs \<and>
      nd_shape (arg_z (cs_call cs)) = [2, 3])"
proof -
  have h1: "cached_shape (opened flux23) = None \<and> fst (shape (opened flux23)) = Inr (2, 3)"
    by (simp add: opened_def shape_def flux23_def)
  have h2: "cached_shape settled = Some (2, 3)" by (simp add: settled_def)
  note t1 = shape_computed_once [of "opened flux23" "(2, 3)" exact_linspace lenient_backend "[]" one_figure
      flux32 None kw_none, THEN conjunct1, rule_format, OF h1]
  note t2 = shape_computed_once [of settled "(2, 3)" exact_linspace lenient_backend
      "[DoPlot (DataArray flux32) None kw_none, DoLegend, DoToGif [ramp] [dip]]" one_figure
      flux32 None kw_none, THEN conjunct2, rule_format, OF h2]
  from h1 have a: "cached_shape (opened flux23) = None" by blast
  from t1 have b: "cached_shape (snd (shape (opened flux23))) = Some (2, 3)" by blast
  from t2 have c: "cached_shape (fst (run exact_linspace lenient_backend
      [DoPlot (DataArray flux32) None kw_none, DoLegend, DoToGif [ramp] [dip]]
      (settled, one_figure))) = Some (2, 3)" by blast
  from t2 have d: "magnetic_flux (fst (snd (plot lenient_backend (DataArray flux32) None kw_none
      (settled, one_figure)))) = Some flux32" by blast
  have e: "da_sizes flux32 = [(''z'', 3), (''major_radius'', 2)]" by (simp add: flux32_def)
  have f: "\<exists>cs. fst (plot lenient_backend (DataArray flux32) None kw_none (settled, one_figure)) = Inr cs \<and>
      nd_shape (arg_z (cs_call cs)) = [2, 3]"
    unfolding settled_plot by simp
  from a b c d e f show ?thesis by (intro conjI)
qed

subsection \<open>The legend\<close>

lemma contour_args_handles: "handles (snd (contour_args c arr kw)) = handles c"
  by (auto simp: contour_args_def shape_def split: option.splits sum.splits)

lemma plot_unlabelled_handles:
  "handles (fst (snd (plot lib d None kw (c, p)))) = handles c"
proof -
  define c1 where "c1 = (case d of DataArray da \<Rightarrow> c\<lparr>magnetic_flux := Some da\<rparr> | _ \<Rightarrow> c)"
  define arr where "arr = (case d of DataArray da \<Rightarrow> Some (da_values da) | NdArray a \<Rightarrow> Some a
                   | NoData \<Rightarrow> None)"
  obtain ax c2 p1 where a: "axes (c1, p) = (ax, c2, p1)" by (cases "axes (c1, p)") auto
  have h1: "handles c1 = handles c" by (simp add: c1_def split: data.splits)
  have h2: "handles c2 = handles c"
    using a h1 by (auto simp: axes_def Let_def split: option.splits)
  obtain r c3 where ca: "contour_args c2 arr kw = (r, c3)"
    by (cases "contour_args c2 arr kw") auto
  from contour_args_handles [of c2 arr kw] ca h2 have h3: "handles c3 = handles c" by simp
  show ?thesis
    using h3
    by (simp add: plot_def Let_def c1_def [symmetric] arr_def [symmetric] a ca add_handle_def
        split: sum.splits)
qed

text \<open>
  C10. \<open>legend\<close> leaves the instance as it was except for the list of legend handles, which
  it empties: the legend itself goes to the plotting library. So a second \<open>legend\<close> right
  after the first draws a legend without any handle, on the same figure; and a plot
  without label in between adds no handle either.
\<close>

theorem legend_only_empties_handles:
  "fst (legend (c, p)) = c\<lparr>handles := []\<rparr> \<and>
   fst (legend (legend (c, p))) = c\<lparr>handles := []\<rparr> \<and>
   journal (snd (legend (legend (c, p)))) =
     journal p @ [Legend (fst (gca p)) (handles c), Legend (fst (gca p)) []] \<and>
   handles (fst (snd (plot lib d None kw (legend (c, p))))) = []"
proof -
  have one: "fst (legend (c, p)) = c\<lparr>handles := []\<rparr>"
    by (simp add: legend_def split: prod.splits)
  have two: "fst (legend (legend (c, p))) = c\<lparr>handles := []\<rparr>"
    by (simp add: legend_def split: prod.splits)
  have drawn: "journal (snd (legend (legend (c, p)))) =
     journal p @ [Legend (fst (gca p)) (handles c), Legend (fst (gca p)) []]"
    by (simp add: legend_def gca_def Let_def split: option.splits prod.splits)
  obtain c' p' where l: "legend (c, p) = (c', p')" by (cases "legend (c, p)") auto
  with one have "handles c' = []" by simp
  with plot_unlabelled_handles [of lib d kw c' p']
  have "handles (fst (snd (plot lib d None kw (legend (c, p))))) = []" by (simp add: l)
  with one two drawn show ?thesis by (intro conjI)
qed

end
